theory Spec2Isabelle
  imports Main
begin

section \<open>Python values\<close>

text \<open>
  The values that flow through \<^verbatim>\<open>persist_chat.py\<close>: the JSON-shaped values (None, booleans,
  integers, strings, lists, string-keyed dictionaries in insertion order), \<open>PObj\<close>, a
  handle to a live object that the interchange format cannot represent, and \<open>PAgent\<close>, a
  reference to an \<^verbatim>\<open>Agent\<close> object of the heap below. Floating-point numbers are left out.
  Containers are values: the functions modelled here never mutate a container that is
  reachable from two places and read afterwards through both.
\<close>

datatype pv =
    PNone
  | PBool bool
  | PInt int
  | PStr string
  | PList "pv list"
  | PDict "(string \<times> pv) list"
  | PObj nat
  | PAgent nat

datatype py_error =
    KeyError string
  | AttributeError
  | TypeError
  | ValueError
  | RecursionError
  | JSONDecodeError
  | SingletonError

type_synonym pydict = "(string \<times> pv) list"

text \<open>\<^verbatim>\<open>d.get(k, default)\<close> and \<^verbatim>\<open>d[k]\<close>.\<close>

definition dict_get :: "pydict \<Rightarrow> string \<Rightarrow> pv \<Rightarrow> pv" where
  "dict_get d k dflt = (case map_of d k of None \<Rightarrow> dflt | Some v \<Rightarrow> v)"

definition dict_item :: "pydict \<Rightarrow> string \<Rightarrow> py_error + pv" where
  "dict_item d k = (case map_of d k of None \<Rightarrow> Inl (KeyError k) | Some v \<Rightarrow> Inr v)"

text \<open>Truth value testing, as \<^verbatim>\<open>if x\<close> does it; an object handle is true.\<close>

fun truthy :: "pv \<Rightarrow> bool" where
  "truthy PNone = False"
| "truthy (PBool b) = b"
| "truthy (PInt i) = (i \<noteq> 0)"
| "truthy (PStr s) = (s \<noteq> [])"
| "truthy (PList xs) = (xs \<noteq> [])"
| "truthy (PDict kvs) = (kvs \<noteq> [])"
| "truthy (PObj h) = True"
| "truthy (PAgent a) = True"

text \<open>
  The comparison \<^verbatim>\<open>a == b\<close>: booleans compare as the integers 0 and 1, lists elementwise,
  dictionaries as mappings whatever the order of their keys, objects by identity.
\<close>

fun py_eq :: "pv \<Rightarrow> pv \<Rightarrow> bool" where
  "py_eq (PList xs) b = (case b of PList ys \<Rightarrow> list_all2 py_eq xs ys | _ \<Rightarrow> False)"
| "py_eq (PDict xs) b =
     (case b of
        PDict ys \<Rightarrow>
          length xs = length ys \<and>
          list_all (\<lambda>kv. case map_of ys (fst kv) of None \<Rightarrow> False
                                | Some w \<Rightarrow> py_eq (snd kv) w) xs
      | _ \<Rightarrow> False)"
| "py_eq (PBool x) b =
     (case b of PBool y \<Rightarrow> x = y | PInt j \<Rightarrow> (if x then 1 else 0) = j | _ \<Rightarrow> False)"
| "py_eq (PInt i) b =
     (case b of PBool y \<Rightarrow> i = (if y then 1 else 0) | PInt j \<Rightarrow> i = j | _ \<Rightarrow> False)"
| "py_eq a b = (a = b)"

text \<open>\<^verbatim>\<open>k.startswith("_")\<close>.\<close>

definition starts_underscore :: "string \<Rightarrow> bool" where
  "starts_underscore k = (case k of [] \<Rightarrow> False | c # _ \<Rightarrow> c = CHR ''_'')"

section \<open>Errors as values\<close>

definition ebind :: "py_error + 'a \<Rightarrow> ('a \<Rightarrow> py_error + 'b) \<Rightarrow> py_error + 'b" where
  "ebind m f = (case m of Inl e \<Rightarrow> Inl e | Inr x \<Rightarrow> f x)"

text \<open>\<^verbatim>\<open>x.get(k, default)\<close> on a value of any type: only a dictionary has the method.\<close>

fun py_get :: "pv \<Rightarrow> string \<Rightarrow> pv \<Rightarrow> py_error + pv" where
  "py_get (PDict d) k dflt = Inr (dict_get d k dflt)"
| "py_get _ k dflt = Inl AttributeError"

text \<open>\<^verbatim>\<open>x[k]\<close> with a string \<open>k\<close>: a missing key raises KeyError, a value that is not a
  dictionary raises TypeError.\<close>

fun py_item :: "pv \<Rightarrow> string \<Rightarrow> py_error + pv" where
  "py_item (PDict d) k = dict_item d k"
| "py_item _ k = Inl TypeError"

text \<open>The elements a \<^verbatim>\<open>for\<close> loop visits: a string yields its characters, a dictionary
  its keys; the other values are not iterable.\<close>

fun py_iter :: "pv \<Rightarrow> py_error + pv list" where
  "py_iter (PList xs) = Inr xs"
| "py_iter (PStr s) = Inr (map (\<lambda>c. PStr [c]) s)"
| "py_iter (PDict kvs) = Inr (map (\<lambda>kv. PStr (fst kv)) kvs)"
| "py_iter _ = Inl TypeError"

text \<open>\<^verbatim>\<open>d[k] = v\<close>: an existing key keeps its position, a new key goes last.\<close>

fun dict_set :: "pydict \<Rightarrow> string \<Rightarrow> pv \<Rightarrow> pydict" where
  "dict_set [] k v = [(k, v)]"
| "dict_set ((k', v') # d) k v =
     (if k' = k then (k, v) # d else (k', v') # dict_set d k v)"

text \<open>
  \<^verbatim>\<open>OrderedDict(x)\<close>: a copy of a dictionary, or the dictionary built from a sequence of
  two-element items. Keys are strings in this model; an item whose key is not a string is
  reported as TypeError here (Python accepts any hashable key).
\<close>

fun pair_of :: "pv \<Rightarrow> py_error + (string \<times> pv)" where
  "pair_of (PList [PStr k, v]) = Inr (k, v)"
| "pair_of (PList [k, v]) = Inl TypeError"
| "pair_of (PList xs) = Inl ValueError"
| "pair_of (PStr [a, b]) = Inr ([a], PStr [b])"
| "pair_of (PStr s) = Inl ValueError"
| "pair_of (PDict [(a, x), (b, y)]) = Inr (a, PStr b)"
| "pair_of (PDict d) = Inl ValueError"
| "pair_of _ = Inl TypeError"

fun dict_of_pairs :: "pydict \<Rightarrow> pv list \<Rightarrow> py_error + pydict" where
  "dict_of_pairs d [] = Inr d"
| "dict_of_pairs d (x # xs) =
     (case pair_of x of Inl e \<Rightarrow> Inl e | Inr (k, v) \<Rightarrow> dict_of_pairs (dict_set d k v) xs)"

fun OrderedDict :: "pv \<Rightarrow> py_error + pydict" where
  "OrderedDict (PDict d) = Inr d"
| "OrderedDict v = ebind (py_iter v) (dict_of_pairs [])"

section \<open>The log model\<close>

record logitem =
  li_no :: int
  li_type :: pv
  li_heading :: pv
  li_content :: pv
  li_kvps :: "pydict option"
  li_temp :: pv

record log =
  guid :: pv
  logs :: "logitem list"
  updates :: "int list"
  progress :: pv
  progress_no :: pv

definition LOG_SIZE :: nat where
  "LOG_SIZE = 1000"

text \<open>The slice \<^verbatim>\<open>xs[-n:]\<close> for \<open>n > 0\<close>: the last \<open>n\<close> elements, all of them when the list
  is shorter.\<close>

definition slice_last :: "nat \<Rightarrow> 'a list \<Rightarrow> 'a list" where
  "slice_last n xs = drop (length xs - n) xs"

text \<open>\<^verbatim>\<open>_serialize_log\<close>; \<open>out\<close> is \<^verbatim>\<open>LogItem.output\<close>, defined outside the persistence
  module.\<close>

definition serialize_log :: "(logitem \<Rightarrow> pv) \<Rightarrow> log \<Rightarrow> pydict" where
  "serialize_log out lg =
     [(''guid'', guid lg),
      (''logs'', PList (map out (slice_last LOG_SIZE (logs lg)))),
      (''progress'', progress lg),
      (''progress_no'', progress_no lg)]"

text \<open>
  The parts of the program that live outside the persistence module and are taken as
  parameters: the identifiers drawn by \<^verbatim>\<open>uuid.uuid4\<close> and by the context constructor, the
  progress values that \<^verbatim>\<open>Log.set_initial_progress\<close> installs, the three \<^verbatim>\<open>datetime\<close>
  functions, the history object's (de)serialization, the values of the enumeration
  \<^verbatim>\<open>AgentContextType\<close> and the two data keys that link the agent chain.
\<close>

datatype AgentContextType = USER | TASK | BACKGROUND

record ('dt, 'h) deps =
  uuid4 :: string
  generate_id :: string
  initial_progress :: pv
  initial_progress_no :: pv
  epoch :: 'dt
  isoformat :: "'dt \<Rightarrow> string"
  fromisoformat :: "pv \<Rightarrow> py_error + 'dt"
  history_serialize :: "'h \<Rightarrow> pv"
  deserialize_history :: "pv \<Rightarrow> py_error + 'h"
  new_history :: 'h
  type_value :: "AgentContextType \<Rightarrow> pv"
  DATA_NAME_SUBORDINATE :: string
  DATA_NAME_SUPERIOR :: string

text \<open>Modelled from the spec: \<^verbatim>\<open>Log()\<close> followed by \<^verbatim>\<open>set_initial_progress()\<close> (the class
  \<^verbatim>\<open>Log\<close> is not part of the sources): an empty log whose progress markers are the initial
  ones.\<close>

definition Log_new :: "('dt, 'h) deps \<Rightarrow> pv \<Rightarrow> log" where
  "Log_new D g = \<lparr>guid = g, logs = [], updates = [],
                 progress = initial_progress D, progress_no = initial_progress_no D\<rparr>"

text \<open>The expression \<^verbatim>\<open>OrderedDict(item_data["kvps"]) if item_data["kvps"] else None\<close>.\<close>

definition kvps_of :: "pv \<Rightarrow> py_error + pydict option" where
  "kvps_of item_data =
     ebind (py_item item_data ''kvps'') (\<lambda>c.
       if truthy c then ebind (py_item item_data ''kvps'') (\<lambda>k.
                          ebind (OrderedDict k) (\<lambda>d. Inr (Some d)))
       else Inr None)"

text \<open>The construction of one \<^verbatim>\<open>LogItem\<close>, its arguments evaluated in the order written.\<close>

definition make_logitem :: "int \<Rightarrow> pv \<Rightarrow> py_error + logitem" where
  "make_logitem i item_data =
     ebind (py_item item_data ''type'') (\<lambda>t.
     ebind (py_get item_data ''heading'' (PStr [])) (\<lambda>h.
     ebind (py_get item_data ''content'' (PStr [])) (\<lambda>c.
     ebind (kvps_of item_data) (\<lambda>k.
     ebind (py_get item_data ''temp'' (PBool False)) (\<lambda>t'.
       Inr \<lparr>li_no = i, li_type = t, li_heading = h, li_content = c,
            li_kvps = k, li_temp = t'\<rparr>)))))"

text \<open>The loop of \<^verbatim>\<open>_deserialize_log\<close>: \<open>i\<close> is the running index.\<close>

fun deserialize_log_loop :: "int \<Rightarrow> log \<Rightarrow> pv list \<Rightarrow> py_error + log" where
  "deserialize_log_loop i lg [] = Inr lg"
| "deserialize_log_loop i lg (item_data # rest) =
     (case make_logitem i item_data of
        Inl e \<Rightarrow> Inl e
      | Inr it \<Rightarrow>
          deserialize_log_loop (i + 1)
            (lg\<lparr>logs := logs lg @ [it], updates := updates lg @ [i]\<rparr>) rest)"

definition deserialize_log :: "('dt, 'h) deps \<Rightarrow> pv \<Rightarrow> py_error + log" where
  "deserialize_log D data =
     ebind (py_get data ''guid'' (PStr (uuid4 D))) (\<lambda>g.
     ebind (py_get data ''logs'' (PList [])) (\<lambda>ls.
     ebind (py_iter ls) (\<lambda>items.
       deserialize_log_loop 0 (Log_new D g) items)))"

text \<open>
  Modelled from the spec: \<^verbatim>\<open>LogItem.output\<close> (the class \<^verbatim>\<open>LogItem\<close> is not part of the
  sources): the entry as a plain mapping of its fields \<open>no\<close>, \<open>type\<close>, \<open>heading\<close>,
  \<open>content\<close>, \<open>kvps\<close> and \<open>temp\<close>.
\<close>

definition LogItem_output :: "logitem \<Rightarrow> pv" where
  "LogItem_output it =
     PDict [(''no'', PInt (li_no it)),
            (''type'', li_type it),
            (''heading'', li_heading it),
            (''content'', li_content it),
            (''temp'', li_temp it),
            (''kvps'', (case li_kvps it of None \<Rightarrow> PNone | Some d \<Rightarrow> PDict d))]"

section \<open>The agent chain\<close>

text \<open>
  An \<^verbatim>\<open>Agent\<close> object carries its ordinal, its data bag and its history; the configuration
  and the back-reference to the context play no part in persistence. The objects live in a
  heap, a list indexed by address, and \<open>PAgent a\<close> refers to the object at address \<open>a\<close>.
  The chain is linked through two entries of the data bag.
\<close>

record 'h agent =
  number :: pv
  data :: pv
  history :: 'h

type_synonym 'h heap = "'h agent list"

text \<open>Reading an attribute of a value that should be an agent: anything else raises
  AttributeError.\<close>

fun heap_get :: "'h heap \<Rightarrow> pv \<Rightarrow> py_error + 'h agent" where
  "heap_get hp (PAgent a) = (if a < length hp then Inr (hp ! a) else Inl AttributeError)"
| "heap_get hp _ = Inl AttributeError"

text \<open>Modelled from the spec: the constructor \<^verbatim>\<open>Agent(number, config, context)\<close> (the class
  \<^verbatim>\<open>Agent\<close> is not part of the sources): a new node with the given ordinal, an empty data
  bag and a new history.\<close>

definition Agent_new :: "('dt, 'h) deps \<Rightarrow> 'h heap \<Rightarrow> pv \<Rightarrow> 'h heap \<times> nat" where
  "Agent_new D hp n =
     (hp @ [\<lparr>number = n, data = PDict [], history = new_history D\<rparr>], length hp)"

text \<open>\<^verbatim>\<open>x[k] = v\<close> on a value of any type.\<close>

fun py_setitem :: "pv \<Rightarrow> string \<Rightarrow> pv \<Rightarrow> py_error + pv" where
  "py_setitem (PDict d) k v = Inr (PDict (dict_set d k v))"
| "py_setitem _ k v = Inl TypeError"

text \<open>Modelled from the spec: \<^verbatim>\<open>Agent.set_data(field, value)\<close>, which stores an entry in
  the data bag of the agent at address \<open>a\<close>.\<close>

definition set_data :: "'h heap \<Rightarrow> nat \<Rightarrow> string \<Rightarrow> pv \<Rightarrow> py_error + 'h heap" where
  "set_data hp a k v =
     (if a < length hp
      then ebind (py_setitem (data (hp ! a)) k v) (\<lambda>d. Inr (hp[a := (hp ! a)\<lparr>data := d\<rparr>]))
      else Inl AttributeError)"

text \<open>\<^verbatim>\<open>x.items()\<close>.\<close>

fun py_items :: "pv \<Rightarrow> py_error + pydict" where
  "py_items (PDict d) = Inr d"
| "py_items _ = Inl AttributeError"

text \<open>\<^verbatim>\<open>_serialize_agent\<close>.\<close>

definition serialize_agent :: "('dt, 'h) deps \<Rightarrow> 'h agent \<Rightarrow> py_error + pv" where
  "serialize_agent D ag =
     ebind (py_items (data ag)) (\<lambda>kvs.
       Inr (PDict [(''number'', number ag),
                   (''data'', PDict (filter (\<lambda>kv. \<not> starts_underscore (fst kv)) kvs)),
                   (''history'', history_serialize D (history ag))]))"

text \<open>
  The loop of \<^verbatim>\<open>_serialize_context\<close> that follows the subordinate links. On a cyclic chain
  it does not return, hence the result is optional: \<open>None\<close> is the loop that runs forever.
\<close>

partial_function (option) serialize_agents ::
  "('dt, 'h) deps \<Rightarrow> 'h heap \<Rightarrow> pv list \<Rightarrow> pv \<Rightarrow> (py_error + pv list) option" where
  "serialize_agents D hp agents ag =
     (if truthy ag then
        (case heap_get hp ag of
           Inl e \<Rightarrow> Some (Inl e)
         | Inr a \<Rightarrow>
            (case serialize_agent D a of
               Inl e \<Rightarrow> Some (Inl e)
             | Inr s \<Rightarrow>
                (case py_get (data a) (DATA_NAME_SUBORDINATE D) PNone of
                   Inl e \<Rightarrow> Some (Inl e)
                 | Inr nxt \<Rightarrow> serialize_agents D hp (agents @ [s]) nxt)))
      else Some (Inr agents))"

text \<open>
  The loop of \<^verbatim>\<open>_deserialize_agents\<close>; \<open>prev\<close> and \<open>zero\<close> are addresses, absent at the
  start. The new agent receives the record's data bag and history, then the two links are
  set when there is a previous node.
\<close>

fun deserialize_agents_loop ::
  "('dt, 'h) deps \<Rightarrow> 'h heap \<Rightarrow> nat option \<Rightarrow> nat option \<Rightarrow> pv list
     \<Rightarrow> py_error + ('h heap \<times> nat option)" where
  "deserialize_agents_loop D hp prev zero [] = Inr (hp, zero)"
| "deserialize_agents_loop D hp prev zero (ag # rest) =
     ebind (py_item ag ''number'') (\<lambda>n.
     ebind (py_get ag ''data'' (PDict [])) (\<lambda>d.
     ebind (py_get ag ''history'' (PStr [])) (\<lambda>hs.
     ebind (deserialize_history D hs) (\<lambda>h.
       let cur = snd (Agent_new D hp n);
           hp1 = fst (Agent_new D hp n);
           hp2 = hp1[cur := (hp1 ! cur)\<lparr>data := d, history := h\<rparr>];
           zero' = (case zero of None \<Rightarrow> Some cur | Some z \<Rightarrow> Some z)
       in ebind (case prev of
                   None \<Rightarrow> Inr hp2
                 | Some p \<Rightarrow>
                     ebind (set_data hp2 p (DATA_NAME_SUBORDINATE D) (PAgent cur)) (\<lambda>hp3.
                       set_data hp3 cur (DATA_NAME_SUPERIOR D) (PAgent p)))
            (\<lambda>hp4. deserialize_agents_loop D hp4 (Some cur) zero' rest)))))"

text \<open>\<^verbatim>\<open>_deserialize_agents\<close>: the head of the rebuilt chain, or a new root when the
  sequence of records is empty.\<close>

definition deserialize_agents ::
  "('dt, 'h) deps \<Rightarrow> 'h heap \<Rightarrow> pv \<Rightarrow> py_error + ('h heap \<times> pv)" where
  "deserialize_agents D hp agents =
     ebind (py_iter agents) (\<lambda>items.
     ebind (deserialize_agents_loop D hp None None items) (\<lambda>r.
       case snd r of
         Some z \<Rightarrow> Inr (fst r, PAgent z)
       | None \<Rightarrow> Inr (fst (Agent_new D (fst r) (PInt 0)),
                       PAgent (snd (Agent_new D (fst r) (PInt 0))))))"

section \<open>The context\<close>

record 'dt agent_context =
  ctx_id :: pv
  ctx_name :: pv
  created_at :: "'dt option"
  ctx_type :: AgentContextType
  last_message :: "'dt option"
  agent0 :: pv
  streaming_agent :: pv
  ctx_log :: log
  paused :: bool

text \<open>
  Modelled from the spec: the constructor \<^verbatim>\<open>AgentContext(...)\<close> (the class is not part of
  the sources): the context keeps the arguments it is given; an absent \<open>id\<close> is replaced by a
  newly issued one. The agent references are assigned by the caller afterwards.
\<close>

definition AgentContext_new ::
  "('dt, 'h) deps \<Rightarrow> pv \<Rightarrow> pv \<Rightarrow> 'dt \<Rightarrow> AgentContextType \<Rightarrow> 'dt \<Rightarrow> log \<Rightarrow> bool
     \<Rightarrow> 'dt agent_context" where
  "AgentContext_new D i n c t l lg p =
     \<lparr>ctx_id = (if i = PNone then PStr (generate_id D) else i), ctx_name = n,
      created_at = Some c, ctx_type = t, last_message = Some l,
      agent0 = PNone, streaming_agent = PNone, ctx_log = lg, paused = p\<rparr>"

text \<open>The call \<^verbatim>\<open>AgentContextType(value)\<close>: the member with that value, ValueError when
  there is none.\<close>

definition AgentContextType_of :: "('dt, 'h) deps \<Rightarrow> pv \<Rightarrow> py_error + AgentContextType" where
  "AgentContextType_of D v =
     (case filter (\<lambda>m. py_eq (type_value D m) v) [USER, TASK, BACKGROUND] of
        [] \<Rightarrow> Inl ValueError
      | m # _ \<Rightarrow> Inr m)"

text \<open>The timestamp written for a field: \<^verbatim>\<open>t.isoformat() if t else
  datetime.fromtimestamp(0).isoformat()\<close>.\<close>

definition iso_or_epoch :: "('dt, 'h) deps \<Rightarrow> 'dt option \<Rightarrow> pv" where
  "iso_or_epoch D t =
     (case t of Some x \<Rightarrow> PStr (isoformat D x) | None \<Rightarrow> PStr (isoformat D (epoch D)))"

text \<open>\<^verbatim>\<open>_serialize_context\<close>: first the walk along the chain, then the mapping, its entries
  evaluated in the order written.\<close>

definition serialize_context ::
  "('dt, 'h) deps \<Rightarrow> 'h heap \<Rightarrow> 'dt agent_context \<Rightarrow> (py_error + pydict) option" where
  "serialize_context D hp c =
     (case serialize_agents D hp [] (agent0 c) of
        None \<Rightarrow> None
      | Some (Inl e) \<Rightarrow> Some (Inl e)
      | Some (Inr agents) \<Rightarrow>
          Some (ebind (if truthy (streaming_agent c)
                       then ebind (heap_get hp (streaming_agent c)) (\<lambda>a. Inr (number a))
                       else Inr (PInt 0)) (\<lambda>sa.
                Inr [(''id'', ctx_id c),
                     (''name'', ctx_name c),
                     (''created_at'', iso_or_epoch D (created_at c)),
                     (''type'', type_value D (ctx_type c)),
                     (''last_message'', iso_or_epoch D (last_message c)),
                     (''agents'', PList agents),
                     (''streaming_agent'', sa),
                     (''log'', PDict (serialize_log LogItem_output (ctx_log c)))])))"

text \<open>
  The loop of \<^verbatim>\<open>_deserialize_context\<close> that looks for the streaming agent: it stops at a
  false value or at an agent whose number equals the stored ordinal.
\<close>

partial_function (option) find_streaming_agent ::
  "('dt, 'h) deps \<Rightarrow> 'h heap \<Rightarrow> pv \<Rightarrow> pv \<Rightarrow> (py_error + pv) option" where
  "find_streaming_agent D hp dat sa =
     (if truthy sa then
        (case heap_get hp sa of
           Inl e \<Rightarrow> Some (Inl e)
         | Inr a \<Rightarrow>
            (case py_get dat ''streaming_agent'' (PInt 0) of
               Inl e \<Rightarrow> Some (Inl e)
             | Inr stored \<Rightarrow>
                if \<not> py_eq (number a) stored then
                  (case py_get (data a) (DATA_NAME_SUBORDINATE D) PNone of
                     Inl e \<Rightarrow> Some (Inl e)
                   | Inr nxt \<Rightarrow> find_streaming_agent D hp dat nxt)
                else Some (Inr sa)))
      else Some (Inr sa))"

text \<open>The first half of \<^verbatim>\<open>_deserialize_context\<close>: the log, then the arguments of the
  constructor in the order written, then the construction.\<close>

definition deserialize_context_head ::
  "('dt, 'h) deps \<Rightarrow> pv \<Rightarrow> py_error + 'dt agent_context" where
  "deserialize_context_head D dat =
     ebind (py_get dat ''log'' PNone) (\<lambda>l.
     ebind (deserialize_log D l) (\<lambda>lg.
     ebind (py_get dat ''id'' PNone) (\<lambda>i.
     ebind (py_get dat ''name'' PNone) (\<lambda>n.
     ebind (py_get dat ''created_at'' (PStr (isoformat D (epoch D)))) (\<lambda>cs.
     ebind (fromisoformat D cs) (\<lambda>c.
     ebind (py_get dat ''type'' (type_value D USER)) (\<lambda>tv.
     ebind (AgentContextType_of D tv) (\<lambda>t.
     ebind (py_get dat ''last_message'' (PStr (isoformat D (epoch D)))) (\<lambda>ms.
     ebind (fromisoformat D ms) (\<lambda>m.
       Inr (AgentContext_new D i n c t m lg False)))))))))))"

text \<open>\<^verbatim>\<open>_deserialize_context\<close>: the new heap and the context, an error, or no result when
  the search for the streaming agent runs forever.\<close>

definition deserialize_context ::
  "('dt, 'h) deps \<Rightarrow> 'h heap \<Rightarrow> pv \<Rightarrow> (py_error + ('h heap \<times> 'dt agent_context)) option" where
  "deserialize_context D hp dat =
     (case deserialize_context_head D dat of
        Inl e \<Rightarrow> Some (Inl e)
      | Inr c \<Rightarrow>
         (case ebind (py_get dat ''agents'' (PList [])) (deserialize_agents D hp) of
            Inl e \<Rightarrow> Some (Inl e)
          | Inr r \<Rightarrow>
             (case find_streaming_agent D (fst r) dat (snd r) of
                None \<Rightarrow> None
              | Some (Inl e) \<Rightarrow> Some (Inl e)
              | Some (Inr sa) \<Rightarrow>
                  Some (Inr (fst r, c\<lparr>agent0 := snd r, streaming_agent := sa\<rparr>)))))"

section \<open>JSON encoding with a fallback hook\<close>

text \<open>
  \<^verbatim>\<open>json.dumps(obj, default=f)\<close> walks the value: scalars, lists and dictionaries are
  encoded as they are, and any other object is replaced by \<open>f\<close> of it, which is encoded in
  turn. The walk is modelled by \<open>json_resolve\<close>, which returns the plain value whose text is
  written; the number \<open>n\<close> bounds how often the result of the hook may need the hook again
  (Python's recursion limit), beyond which RecursionError is raised. The text of a plain
  value and the parser are the library's, taken as parameters.
\<close>

record jsonlib =
  json_text :: "pv \<Rightarrow> string"
  json_loads :: "string \<Rightarrow> py_error + pv"

fun json_resolve :: "(pv \<Rightarrow> py_error + pv) \<Rightarrow> nat \<Rightarrow> pv \<Rightarrow> py_error + pv"
  and json_resolve_list :: "(pv \<Rightarrow> py_error + pv) \<Rightarrow> nat \<Rightarrow> pv list \<Rightarrow> py_error + pv list"
  and json_resolve_dict :: "(pv \<Rightarrow> py_error + pv) \<Rightarrow> nat \<Rightarrow> pydict \<Rightarrow> py_error + pydict"
where
  "json_resolve f n (PList xs) = ebind (json_resolve_list f n xs) (\<lambda>ys. Inr (PList ys))"
| "json_resolve f n (PDict kvs) = ebind (json_resolve_dict f n kvs) (\<lambda>ys. Inr (PDict ys))"
| "json_resolve f 0 (PObj h) = ebind (f (PObj h)) (\<lambda>v. Inl RecursionError)"
| "json_resolve f (Suc n) (PObj h) = ebind (f (PObj h)) (json_resolve f n)"
| "json_resolve f 0 (PAgent a) = ebind (f (PAgent a)) (\<lambda>v. Inl RecursionError)"
| "json_resolve f (Suc n) (PAgent a) = ebind (f (PAgent a)) (json_resolve f n)"
| "json_resolve f n v = Inr v"
| "json_resolve_list f n [] = Inr []"
| "json_resolve_list f n (x # xs) =
     ebind (json_resolve f n x) (\<lambda>y.
     ebind (json_resolve_list f n xs) (\<lambda>ys. Inr (y # ys)))"
| "json_resolve_dict f n [] = Inr []"
| "json_resolve_dict f n (kv # kvs) =
     ebind (json_resolve f n (snd kv)) (\<lambda>w.
     ebind (json_resolve_dict f n kvs) (\<lambda>r. Inr ((fst kv, w) # r)))"

text \<open>\<^verbatim>\<open>JSONEncoder.default\<close>, the hook when none is given.\<close>

definition json_default :: "pv \<Rightarrow> py_error + pv" where
  "json_default v = Inl TypeError"

text \<open>\<^verbatim>\<open>json.dumps(obj)\<close>.\<close>

definition json_dumps :: "jsonlib \<Rightarrow> pv \<Rightarrow> py_error + string" where
  "json_dumps J v = ebind (json_resolve json_default 0 v) (\<lambda>p. Inr (json_text J p))"

text \<open>The two local functions of \<^verbatim>\<open>_safe_json_serialize\<close> and the function itself.\<close>

definition is_json_serializable :: "pv \<Rightarrow> py_error + bool" where
  "is_json_serializable item =
     (case json_resolve json_default 0 item of
        Inr _ \<Rightarrow> Inr True
      | Inl TypeError \<Rightarrow> Inr False
      | Inl e \<Rightarrow> Inl e)"

fun efilter :: "('a \<Rightarrow> py_error + bool) \<Rightarrow> 'a list \<Rightarrow> py_error + 'a list" where
  "efilter p [] = Inr []"
| "efilter p (x # xs) =
     ebind (p x) (\<lambda>b. ebind (efilter p xs) (\<lambda>ys. Inr (if b then x # ys else ys)))"

fun serializer :: "pv \<Rightarrow> py_error + pv" where
  "serializer (PDict kvs) =
     ebind (efilter (\<lambda>kv. is_json_serializable (snd kv)) kvs) (\<lambda>r. Inr (PDict r))"
| "serializer (PList xs) = ebind (efilter is_json_serializable xs) (\<lambda>r. Inr (PList r))"
| "serializer v = ebind (is_json_serializable v) (\<lambda>b. Inr (if b then v else PNone))"

definition safe_json_serialize :: "jsonlib \<Rightarrow> nat \<Rightarrow> pv \<Rightarrow> py_error + string" where
  "safe_json_serialize J n obj =
     ebind (json_resolve serializer n obj) (\<lambda>p. Inr (json_text J p))"

section \<open>The store boundary\<close>

text \<open>
  The world outside the process: the marker directories, the remote key-value store, whether
  the class attribute \<^verbatim>\<open>MemGraphHelper._instance\<close> is set, and whether the store can be
  reached.
\<close>

record world =
  dirs :: "string set"
  store :: "string \<Rightarrow> string option"
  instance_set :: bool
  reachable :: bool

datatype command = GET string | SET string string

text \<open>Modelled from the spec: the remote store (it is not part of the sources). \<open>GET\<close>
  answers the stored payload or the marker \<^verbatim>\<open>(nil)\<close>; \<open>SET\<close> stores the payload and answers
  \<^verbatim>\<open>OK\<close>.\<close>

fun store_exec :: "(string \<Rightarrow> string option) \<Rightarrow> command \<Rightarrow> (string \<Rightarrow> string option) \<times> pv" where
  "store_exec st (GET k) =
     (st, PDict [(''response'', PStr (case st k of None \<Rightarrow> ''(nil)'' | Some v \<Rightarrow> v))])"
| "store_exec st (SET k v) = (st(k \<mapsto> v), PDict [(''response'', PStr ''OK'')])"

text \<open>\<^verbatim>\<open>_send_command\<close>: a transport failure is caught and answered by an error mapping.\<close>

definition send_command :: "world \<Rightarrow> command \<Rightarrow> world \<times> pv" where
  "send_command w c =
     (if reachable w
      then (w\<lparr>store := fst (store_exec (store w) c)\<rparr>, snd (store_exec (store w) c))
      else (w, PDict [(''error'', PStr ''RequestException'')]))"

text \<open>The constructor \<^verbatim>\<open>MemGraphHelper()\<close> refuses to run when the instance attribute is
  set.\<close>

definition MemGraphHelper_new :: "world \<Rightarrow> py_error + world" where
  "MemGraphHelper_new w = (if instance_set w then Inl SingletonError else Inr w)"

definition quote :: string where
  "quote = [CHR 0x27]"

definition history_key :: "string \<Rightarrow> string" where
  "history_key conversation_id = ''chat_history:'' @ conversation_id"

text \<open>The payload that \<^verbatim>\<open>save_history\<close> sends, and \<^verbatim>\<open>save_history\<close>.\<close>

definition encode_history :: "jsonlib \<Rightarrow> pv \<Rightarrow> py_error + string" where
  "encode_history J h = ebind (json_dumps J h) (\<lambda>t. Inr (quote @ t @ quote))"

definition save_history :: "jsonlib \<Rightarrow> world \<Rightarrow> string \<Rightarrow> pv \<Rightarrow> py_error + world" where
  "save_history J w conversation_id h =
     ebind (encode_history J h) (\<lambda>v.
       Inr (fst (send_command w (SET (history_key conversation_id) v))))"

text \<open>The decoding of a payload in \<^verbatim>\<open>load_history\<close>: the slice \<^verbatim>\<open>s[1:-1]\<close> when the
  payload starts and ends with a quote; a payload that is not JSON gives the empty list.\<close>

definition decode_history :: "jsonlib \<Rightarrow> string \<Rightarrow> py_error + pv" where
  "decode_history J s =
     (case json_loads J (if s \<noteq> [] \<and> hd s = CHR 0x27 \<and> last s = CHR 0x27
                         then butlast (tl s) else s) of
        Inl JSONDecodeError \<Rightarrow> Inr (PList [])
      | r \<Rightarrow> r)"

definition load_history :: "jsonlib \<Rightarrow> world \<Rightarrow> string \<Rightarrow> world \<times> (py_error + pv)" where
  "load_history J w conversation_id =
     (let r = send_command w (GET (history_key conversation_id))
      in (fst r,
          (case snd r of
             PDict d \<Rightarrow>
               (case map_of d ''response'' of
                  Some (PStr s) \<Rightarrow> if s \<noteq> ''(nil)'' then decode_history J s else Inr (PList [])
                | Some _ \<Rightarrow> Inl AttributeError
                | None \<Rightarrow> Inr (PList []))
           | _ \<Rightarrow> Inl TypeError)))"

definition CHATS_FOLDER :: string where
  "CHATS_FOLDER = ''tmp/chats''"

text \<open>Modelled from the spec: \<^verbatim>\<open>files.get_abs_path\<close> and \<^verbatim>\<open>files.delete_dir\<close> (the module
  \<^verbatim>\<open>files\<close> is not part of the sources): one directory per context id under the chats
  root, and its removal.\<close>

definition get_chat_folder_path :: "string \<Rightarrow> string" where
  "get_chat_folder_path ctxid = CHATS_FOLDER @ ''/'' @ ctxid"

definition delete_dir :: "world \<Rightarrow> string \<Rightarrow> world" where
  "delete_dir w path = w\<lparr>dirs := dirs w - {path}\<rparr>"

text \<open>\<^verbatim>\<open>remove_chat\<close>.\<close>

definition remove_chat :: "jsonlib \<Rightarrow> world \<Rightarrow> string \<Rightarrow> py_error + world" where
  "remove_chat J w ctxid =
     ebind (MemGraphHelper_new (delete_dir w (get_chat_folder_path ctxid))) (\<lambda>w1.
       save_history J w1 ctxid (PList []))"

section \<open>Auxiliary notions\<close>

text \<open>The value in which every object that JSON cannot encode is replaced by None, at
  every depth.\<close>

fun nullify :: "pv \<Rightarrow> pv" where
  "nullify (PList xs) = PList (map nullify xs)"
| "nullify (PDict kvs) = PDict (map (\<lambda>kv. (fst kv, nullify (snd kv))) kvs)"
| "nullify (PObj h) = PNone"
| "nullify (PAgent a) = PNone"
| "nullify v = v"

text \<open>
  The chain that starts at a value: the agents met by following the subordinate entries,
  and the false value at which the walk ends.
\<close>

inductive chain_to :: "('dt, 'h) deps \<Rightarrow> 'h heap \<Rightarrow> pv \<Rightarrow> 'h agent list \<Rightarrow> pv \<Rightarrow> bool"
  for D :: "('dt, 'h) deps" and hp :: "'h heap" where
  chain_end: "\<not> truthy v \<Longrightarrow> chain_to D hp v [] v"
| chain_step: "heap_get hp v = Inr a
     \<Longrightarrow> py_get (data a) (DATA_NAME_SUBORDINATE D) PNone = Inr nxt
     \<Longrightarrow> chain_to D hp nxt as t \<Longrightarrow> chain_to D hp v (a # as) t"

text \<open>A stored agent record from which \<^verbatim>\<open>_deserialize_agents\<close> reads the number, the data
  bag (a mapping) and the history of the agent \<open>x\<close>.\<close>

definition parses :: "('dt, 'h) deps \<Rightarrow> pv \<Rightarrow> 'h agent \<Rightarrow> bool" where
  "parses D r x \<longleftrightarrow>
     py_item r ''number'' = Inr (number x) \<and>
     py_get r ''data'' (PDict []) = Inr (data x) \<and>
     (\<exists>e. data x = PDict e) \<and>
     (\<exists>hs. py_get r ''history'' (PStr []) = Inr hs
           \<and> deserialize_history D hs = Inr (history x))"

text \<open>The data bag after \<open>set_data\<close> of a link, and the agents that the loop of
  \<^verbatim>\<open>_deserialize_agents\<close> builds from the agents read from the records: the first one
  at address \<open>a\<close>, each linked to its neighbours.\<close>

fun link :: "string \<Rightarrow> nat option \<Rightarrow> pv \<Rightarrow> pv" where
  "link k (Some a) (PDict e) = PDict (dict_set e k (PAgent a))"
| "link k _ d = d"

fun build :: "('dt, 'h) deps \<Rightarrow> nat \<Rightarrow> nat option \<Rightarrow> 'h agent list \<Rightarrow> 'h agent list" where
  "build D a prev [] = []"
| "build D a prev (x # xs) =
     x\<lparr>data := link (DATA_NAME_SUBORDINATE D) (if xs = [] then None else Some (Suc a))
                  (link (DATA_NAME_SUPERIOR D) prev (data x))\<rparr>
     # build D (Suc a) (Some a) xs"

text \<open>
  What a log looks like after it has been serialized and deserialized: the entries kept by
  the slice, an empty \<open>kvps\<close> mapping read back as absent, the entries numbered from 0, every
  index pending in \<open>updates\<close>, the progress markers reset.
\<close>

definition norm_kvps :: "logitem \<Rightarrow> logitem" where
  "norm_kvps it = it\<lparr>li_kvps := (if li_kvps it = Some [] then None else li_kvps it)\<rparr>"

fun renumber :: "int \<Rightarrow> logitem list \<Rightarrow> logitem list" where
  "renumber i [] = []"
| "renumber i (it # its) = it\<lparr>li_no := i\<rparr> # renumber (i + 1) its"

definition relog :: "('dt, 'h) deps \<Rightarrow> log \<Rightarrow> log" where
  "relog D lg =
     \<lparr>guid = guid lg,
      logs = renumber 0 (map norm_kvps (slice_last LOG_SIZE (logs lg))),
      updates = map li_no (renumber 0 (map norm_kvps (slice_last LOG_SIZE (logs lg)))),
      progress = initial_progress D, progress_no = initial_progress_no D\<rparr>"

text \<open>The data bag without the keys that start with an underscore, the record written for
  an agent whose data bag is a mapping, and the agent read back from that record.\<close>

fun strip_private :: "pv \<Rightarrow> pv" where
  "strip_private (PDict e) = PDict (filter (\<lambda>kv. \<not> starts_underscore (fst kv)) e)"
| "strip_private d = d"

definition agent_record :: "('dt, 'h) deps \<Rightarrow> 'h agent \<Rightarrow> pv" where
  "agent_record D a =
     PDict [(''number'', number a), (''data'', strip_private (data a)),
            (''history'', history_serialize D (history a))]"

text \<open>The data bag without the two link entries.\<close>

fun own_data :: "('dt, 'h) deps \<Rightarrow> pv \<Rightarrow> pv" where
  "own_data D (PDict e) =
     PDict (filter (\<lambda>kv. fst kv \<noteq> DATA_NAME_SUBORDINATE D \<and> fst kv \<noteq> DATA_NAME_SUPERIOR D) e)"
| "own_data D d = d"

definition exported :: "'h agent \<Rightarrow> 'h agent" where
  "exported a = a\<lparr>data := strip_private (data a)\<rparr>"

text \<open>\<^verbatim>\<open>_deserialize_context(_serialize_context(c))\<close>, in the heap of \<open>c\<close>.\<close>

definition roundtrip ::
  "('dt, 'h) deps \<Rightarrow> 'h heap \<Rightarrow> 'dt agent_context
     \<Rightarrow> (py_error + ('h heap \<times> 'dt agent_context)) option" where
  "roundtrip D hp c =
     (case serialize_context D hp c of
        None \<Rightarrow> None
      | Some (Inl e) \<Rightarrow> Some (Inl e)
      | Some (Inr ser) \<Rightarrow> deserialize_context D hp (PDict ser))"

section \<open>Sample inputs\<close>

definition sample_item :: "nat \<Rightarrow> logitem" where
  "sample_item n = \<lparr>li_no = int n, li_type = PStr ''info'', li_heading = PStr ''h'',
                    li_content = PStr ''c'', li_kvps = None, li_temp = PBool False\<rparr>"

definition sample_log :: "nat \<Rightarrow> log" where
  "sample_log n = \<lparr>guid = PStr ''g'', logs = map sample_item [0..<n], updates = [],
                   progress = PStr [], progress_no = PInt 0\<rparr>"

text \<open>
  A concrete instance of the parameters: timestamps are their ISO texts, histories are plain
  values.
\<close>

definition sample_deps :: "(string, pv) deps" where
  "sample_deps =
     \<lparr>uuid4 = ''guid-1'', generate_id = ''ctx-new'',
      initial_progress = PStr [], initial_progress_no = PInt 0,
      epoch = ''1970-01-01T00:00:00'',
      isoformat = (\<lambda>t. t),
      fromisoformat = (\<lambda>v. case v of PStr s \<Rightarrow> Inr s | _ \<Rightarrow> Inl TypeError),
      history_serialize = (\<lambda>h. h),
      deserialize_history = Inr,
      new_history = PList [],
      type_value = (\<lambda>t. case t of USER \<Rightarrow> PStr ''user'' | TASK \<Rightarrow> PStr ''task''
                                   | BACKGROUND \<Rightarrow> PStr ''background''),
      DATA_NAME_SUBORDINATE = ''_subordinate'',
      DATA_NAME_SUPERIOR = ''_superior''\<rparr>"

definition sample_records :: "pv list" where
  "sample_records =
     [PDict [(''number'', PInt 0), (''data'', PDict [(''k'', PStr ''v'')]),
             (''history'', PStr ''h0'')],
      PDict [(''number'', PInt 1), (''data'', PDict []), (''history'', PStr ''h1'')],
      PDict [(''number'', PInt 2)]]"

definition sample_json :: jsonlib where
  "sample_json =
     \<lparr>json_text = (\<lambda>v. case v of PList [] \<Rightarrow> ''[]'' | _ \<Rightarrow> ''?''),
      json_loads = (\<lambda>s. if s = ''[]'' then Inr (PList []) else Inl JSONDecodeError)\<rparr>"

definition sample_world :: world where
  "sample_world =
     \<lparr>dirs = {''tmp/chats/c1'', ''tmp/chats/c2''},
      store = [''chat_history:c1'' \<mapsto> ''[{}]''],
      instance_set = False, reachable = True\<rparr>"

definition sample_nodes :: "pv agent list" where
  "sample_nodes =
     [\<lparr>number = PInt 0, data = PDict [(''k'', PStr ''v'')], history = PStr ''h0''\<rparr>,
      \<lparr>number = PInt 1, data = PDict [], history = PStr ''h1''\<rparr>,
      \<lparr>number = PInt 2, data = PDict [], history = PStr []\<rparr>]"


definition sample_legacy :: pydict where
  "sample_legacy =
     [(''id'', PStr ''c1''), (''agents'', PList sample_records),
      (''log'', PDict [(''guid'', PStr ''g''),
                       (''logs'', PList [PDict [(''type'', PStr ''info''), (''kvps'', PNone)]])])]"

definition sample_heap :: "pv heap" where
  "sample_heap =
     [\<lparr>number = PInt 0,
       data = PDict [(''k'', PStr ''v''), (''_subordinate'', PAgent 1)],
       history = PStr ''h0''\<rparr>,
      \<lparr>number = PInt 1, data = PDict [(''_superior'', PAgent 0)], history = PStr ''h1''\<rparr>]"

definition sample_context :: "nat \<Rightarrow> string agent_context" where
  "sample_context n =
     \<lparr>ctx_id = PStr ''c1'', ctx_name = PStr ''chat'',
      created_at = Some ''2024-01-01T10:00:00'', ctx_type = TASK,
      last_message = Some ''2024-01-02T11:30:00'',
      agent0 = PAgent 0, streaming_agent = PAgent 1,
      ctx_log = sample_log n, paused = True\<rparr>"

definition sample_heap_single :: "pv heap" where
  "sample_heap_single =
     [\<lparr>number = PInt 0, data = PDict [(''k'', PStr ''v'')], history = PStr ''h0''\<rparr>]"

definition sample_context_single :: "nat \<Rightarrow> string agent_context" where
  "sample_context_single n =
     \<lparr>ctx_id = PStr ''c1'', ctx_name = PStr ''chat'',
      created_at = Some ''2024-01-01T10:00:00'', ctx_type = USER,
      last_message = Some ''2024-01-02T11:30:00'',
      agent0 = PAgent 0, streaming_agent = PNone,
      ctx_log = sample_log n, paused = False\<rparr>"



section \<open>Properties\<close>

subsection \<open>Log truncation\<close>

lemma slice_last_length: "n < length xs \<Longrightarrow> length (slice_last n xs) = n"
  by (simp add: slice_last_def)

lemma slice_last_nth:
  "n < length xs \<Longrightarrow> i < n \<Longrightarrow> slice_last n xs ! i = xs ! (length xs - n + i)"
  by (simp add: slice_last_def)

text \<open>
  C4. A log holding more than 1000 entries is serialized to exactly 1000 entries: the
  outputs of the last 1000 entries of the log, in the log's order (entry \<open>i\<close> of the result is
  the output of entry \<open>length - 1000 + i\<close> of the log); the older entries do not appear.
\<close>

theorem serialize_log_truncates:
  assumes "1000 < length (logs lg)"
  shows "\<exists>es. map_of (serialize_log out lg) ''logs'' = Some (PList es)
           \<and> length es = 1000
           \<and> es = map out (drop (length (logs lg) - 1000) (logs lg))
           \<and> (\<forall>i<1000. es ! i = out (logs lg ! (length (logs lg) - 1000 + i)))"
proof -
  let ?es = "map out (slice_last LOG_SIZE (logs lg))"
  have n: "LOG_SIZE < length (logs lg)"
    using assms by (simp add: LOG_SIZE_def)
  have "map_of (serialize_log out lg) ''logs'' = Some (PList ?es)"
    by (simp add: serialize_log_def)
  moreover have "length ?es = 1000"
    using slice_last_length [OF n] by (simp add: LOG_SIZE_def)
  moreover have "?es = map out (drop (length (logs lg) - 1000) (logs lg))"
    by (simp add: slice_last_def LOG_SIZE_def)
  moreover have "\<forall>i<1000. ?es ! i = out (logs lg ! (length (logs lg) - 1000 + i))"
    using slice_last_nth [OF n] slice_last_length [OF n] by (simp add: LOG_SIZE_def)
  ultimately show ?thesis by blast
qed

theorem serialize_log_truncates_witness:
  "1000 < length (logs (sample_log 1500))
   \<and> map_of (serialize_log LogItem_output (sample_log 1500)) ''logs''
       = Some (PList (map LogItem_output (map sample_item [500..<1500])))
   \<and> length (map LogItem_output (map sample_item [500..<1500])) = 1000"
  using serialize_log_truncates [of "sample_log 1500" LogItem_output]
  by (simp add: sample_log_def drop_map)

subsection \<open>Basic facts\<close>

lemma ebind_Inl [simp]: "ebind (Inl e) f = Inl e"
  by (simp add: ebind_def)

lemma ebind_Inr [simp]: "ebind (Inr x) f = f x"
  by (simp add: ebind_def)

subsection \<open>Log entries with missing fields\<close>

lemma make_logitem_without_kvps:
  assumes "map_of r ''type'' = Some t" and "map_of r ''kvps'' = None"
  shows "make_logitem i (PDict r) = Inl (KeyError ''kvps'')"
  using assms by (simp add: make_logitem_def kvps_of_def dict_item_def dict_get_def)

lemma make_logitem_defaults:
  assumes "map_of r ''type'' = Some t" and "map_of r ''kvps'' = Some k" and "\<not> truthy k"
    and "map_of r ''heading'' = None" and "map_of r ''content'' = None"
    and "map_of r ''temp'' = None"
  shows "make_logitem i (PDict r) =
           Inr \<lparr>li_no = i, li_type = t, li_heading = PStr [], li_content = PStr [],
                li_kvps = None, li_temp = PBool False\<rparr>"
  using assms by (simp add: make_logitem_def kvps_of_def dict_item_def dict_get_def)

text \<open>
  C3. The claim says that a log-entry record with a \<open>type\<close> field that lacks \<open>heading\<close>,
  \<open>content\<close>, \<open>kvps\<close> or \<open>temp\<close> is deserialized with defaults. The code reads \<open>kvps\<close> by
  subscript, so the log whose only entry is \<^verbatim>\<open>{"type": "info"}\<close> is not deserialized:
  KeyError on \<open>kvps\<close> is raised. (The defaults do apply to \<open>heading\<close>, \<open>content\<close> and
  \<open>temp\<close> when \<open>kvps\<close> is present, see \<open>make_logitem_defaults\<close>.)
\<close>

theorem deserialize_log_missing_kvps_raises:
  "deserialize_log D (PDict [(''logs'', PList [PDict [(''type'', PStr ''info'')]])])
     = Inl (KeyError ''kvps'')"
  by (simp add: deserialize_log_def dict_get_def make_logitem_def kvps_of_def dict_item_def)

subsection \<open>A record without a log\<close>

text \<open>
  C10. A stored context record with no \<open>log\<close> field is not deserialized: the lookup
  defaults to None, on which \<^verbatim>\<open>_deserialize_log\<close> calls \<open>get\<close>, and AttributeError is
  raised, whatever the other fields are.
\<close>

theorem deserialize_context_without_log:
  assumes "map_of d ''log'' = None"
  shows "deserialize_context D hp (PDict d) = Some (Inl AttributeError)"
  using assms
  by (simp add: deserialize_context_def deserialize_context_head_def dict_get_def
      deserialize_log_def)

theorem deserialize_context_without_log_witness:
  "map_of [(''id'', PStr ''c1''), (''agents'', PList [])] ''log'' = None
   \<and> deserialize_context sample_deps [] (PDict [(''id'', PStr ''c1''), (''agents'', PList [])])
       = Some (Inl AttributeError)"
  using deserialize_context_without_log
    [of "[(''id'', PStr ''c1''), (''agents'', PList [])]" sample_deps "[]"]
  by simp

subsection \<open>The rebuilt chain is never empty\<close>

lemma set_data_length: "set_data hp a k v = Inr hp' \<Longrightarrow> length hp' = length hp"
  by (auto simp: set_data_def ebind_def split: if_splits sum.splits)

lemma deserialize_agents_loop_step:
  assumes "deserialize_agents_loop D hp prev zero (ag # rest) = Inr r"
  shows "\<exists>hp4. length hp4 = Suc (length hp) \<and>
           deserialize_agents_loop D hp4 (Some (length hp))
             (case zero of None \<Rightarrow> Some (length hp) | Some z \<Rightarrow> Some z) rest = Inr r"
  using assms
  apply (auto simp: ebind_def Let_def Agent_new_def split: sum.splits option.splits
      dest!: set_data_length)
   apply (rule exI, rule conjI, rule_tac [2] asm_rl, simp_all)+
  done

lemma deserialize_agents_loop_zero:
  "deserialize_agents_loop D hp prev zero items = Inr (hp', z') \<Longrightarrow>
     length hp \<le> length hp' \<and>
     (case zero of Some z \<Rightarrow> z' = Some z
      | None \<Rightarrow> (case z' of None \<Rightarrow> True | Some z \<Rightarrow> z < length hp'))"
proof (induction items arbitrary: hp prev zero)
  case Nil
  then show ?case by (auto split: option.splits)
next
  case (Cons ag rest)
  from deserialize_agents_loop_step [OF Cons.prems]
  obtain hp4 where len: "length hp4 = Suc (length hp)"
    and rec: "deserialize_agents_loop D hp4 (Some (length hp))
             (case zero of None \<Rightarrow> Some (length hp) | Some z \<Rightarrow> Some z) rest = Inr (hp', z')"
    by blast
  from Cons.IH [OF rec] len show ?case
    by (auto split: option.splits)
qed

text \<open>
  C6. Deserializing the empty sequence of agent records allocates one agent, the root: its
  number is 0 and its data bag is empty (so it has no subordinate), and it is the head that is
  returned. Whatever the sequence, the head returned is an agent of the heap: the chain is
  never empty.
\<close>

theorem deserialize_agents_empty:
  "deserialize_agents D hp (PList []) =
     Inr (hp @ [\<lparr>number = PInt 0, data = PDict [], history = new_history D\<rparr>],
          PAgent (length hp))
   \<and> (\<forall>agents hp' a. deserialize_agents D hp agents = Inr (hp', a) \<longrightarrow>
          (\<exists>n. a = PAgent n \<and> n < length hp'))"
proof (intro conjI allI impI)
  show "deserialize_agents D hp (PList []) =
     Inr (hp @ [\<lparr>number = PInt 0, data = PDict [], history = new_history D\<rparr>],
          PAgent (length hp))"
    by (simp add: deserialize_agents_def Agent_new_def)
next
  fix agents hp' a
  assume a: "deserialize_agents D hp agents = Inr (hp', a)"
  then obtain items hp1 z where lp: "deserialize_agents_loop D hp None None items = Inr (hp1, z)"
    and res: "case z of Some z' \<Rightarrow> hp' = hp1 \<and> a = PAgent z'
               | None \<Rightarrow> length hp' = Suc (length hp1) \<and> a = PAgent (length hp1)"
    by (auto simp: deserialize_agents_def ebind_def Agent_new_def
        split: sum.splits option.splits)
  from deserialize_agents_loop_zero [OF lp] res
  show "\<exists>n. a = PAgent n \<and> n < length hp'"
    by (auto split: option.splits)
qed

lemma sample_records_deserialized:
  "deserialize_agents sample_deps [] (PList sample_records) =
     Inr ([\<lparr>number = PInt 0,
            data = PDict [(''k'', PStr ''v''), (''_subordinate'', PAgent 1)],
            history = PStr ''h0''\<rparr>,
           \<lparr>number = PInt 1,
            data = PDict [(''_superior'', PAgent 0), (''_subordinate'', PAgent 2)],
            history = PStr ''h1''\<rparr>,
           \<lparr>number = PInt 2, data = PDict [(''_superior'', PAgent 1)],
            history = PStr []\<rparr>], PAgent 0)"
  by (simp add: deserialize_agents_def sample_records_def sample_deps_def Agent_new_def
      dict_item_def dict_get_def set_data_def)

theorem deserialize_agents_empty_witness:
  "deserialize_agents sample_deps [] (PList []) =
     Inr ([\<lparr>number = PInt 0, data = PDict [], history = PList []\<rparr>], PAgent 0)
   \<and> (\<exists>hp' n. deserialize_agents sample_deps [] (PList sample_records) = Inr (hp', PAgent n)
          \<and> n < length hp')"
  using deserialize_agents_empty [of sample_deps "[]"] sample_records_deserialized
  by (simp add: sample_deps_def)

subsection \<open>Export of values that JSON cannot encode\<close>

lemma json_resolve_list_pointwise:
  "(\<And>x. x \<in> set xs \<Longrightarrow> json_resolve f n x = Inr (g x))
     \<Longrightarrow> json_resolve_list f n xs = Inr (map g xs)"
  by (induction xs) simp_all

lemma json_resolve_dict_pointwise:
  "(\<And>kv. kv \<in> set kvs \<Longrightarrow> json_resolve f n (snd kv) = Inr (g (snd kv)))
     \<Longrightarrow> json_resolve_dict f n kvs = Inr (map (\<lambda>kv. (fst kv, g (snd kv))) kvs)"
  by (induction kvs) simp_all

text \<open>The hook is reached only for the objects themselves, never for the mapping or the
  sequence that holds them, and it answers None: the export has \<open>null\<close> in their place.\<close>

lemma json_resolve_serializer:
  "json_resolve serializer (Suc n) v = Inr (nullify v)"
proof (induction v)
  case (PList xs)
  then show ?case by (simp add: json_resolve_list_pointwise [where g = nullify])
next
  case (PDict kvs)
  have "json_resolve_dict serializer (Suc n) kvs
          = Inr (map (\<lambda>kv. (fst kv, nullify (snd kv))) kvs)"
  proof (rule json_resolve_dict_pointwise)
    fix kv :: "string \<times> pv"
    assume m: "kv \<in> set kvs"
    have "snd kv \<in> Basic_BNFs.snds kv"
      by (cases kv) simp
    from PDict.IH [OF m this]
    show "json_resolve serializer (Suc n) (snd kv) = Inr (nullify (snd kv))" .
  qed
  then show ?case by simp
qed (simp_all add: is_json_serializable_def json_default_def)

lemma safe_json_serialize_total:
  "safe_json_serialize J (Suc n) obj = Inr (json_text J (nullify obj))"
  by (simp add: safe_json_serialize_def json_resolve_serializer)

text \<open>
  C2. The claim says that a value JSON cannot encode is omitted, with its key or position,
  from the mapping or sequence that holds it. In the code the fallback hook is called on
  the value alone and returns None, so the key stays and its value is \<open>null\<close>: the data bag
  \<^verbatim>\<open>{"a": 1, "h": <object>}\<close> is exported as the text of \<^verbatim>\<open>{"a": 1, "h": None}\<close>, and the
  list \<^verbatim>\<open>[1, <object>]\<close> as the text of \<^verbatim>\<open>[1, None]\<close>.
\<close>

theorem safe_json_serialize_keeps_key:
  "json_resolve serializer 1 (PDict [(''a'', PInt 1), (''h'', PObj 0)])
     = Inr (PDict [(''a'', PInt 1), (''h'', PNone)])
   \<and> safe_json_serialize J 1 (PDict [(''a'', PInt 1), (''h'', PObj 0)])
     = Inr (json_text J (PDict [(''a'', PInt 1), (''h'', PNone)]))
   \<and> safe_json_serialize J 1 (PList [PInt 1, PObj 0])
     = Inr (json_text J (PList [PInt 1, PNone]))"
  by (simp add: safe_json_serialize_def is_json_serializable_def json_default_def)

subsection \<open>The quoted payload of the store\<close>

lemma butlast_tl_quoted: "butlast (tl (quote @ t @ quote)) = t"
  by (simp add: quote_def butlast_append)

lemma quoted_shape:
  "quote @ t @ quote \<noteq> [] \<and> hd (quote @ t @ quote) = CHR 0x27
     \<and> last (quote @ t @ quote) = CHR 0x27"
  by (simp add: quote_def)

text \<open>
  C9. For a list of history records \<open>h\<close> that JSON encodes as it is and that the library's
  parser reads back from its text, \<^verbatim>\<open>save_history\<close> sends the JSON text of \<open>h\<close> between two
  single quotes, and the decoding of \<^verbatim>\<open>load_history\<close> (strip one quote at each end, then
  parse) applied to that payload yields \<open>h\<close>.
\<close>

theorem history_wire_roundtrip:
  assumes plain: "json_resolve json_default 0 h = Inr h"
    and lib: "json_loads J (json_text J h) = Inr h"
  shows "\<exists>s. encode_history J h = Inr s
           \<and> s = quote @ json_text J h @ quote
           \<and> decode_history J s = Inr h"
proof -
  have enc: "encode_history J h = Inr (quote @ json_text J h @ quote)"
    using plain by (simp add: encode_history_def json_dumps_def)
  have dec: "decode_history J (quote @ json_text J h @ quote) = Inr h"
    using lib quoted_shape [of "json_text J h"] butlast_tl_quoted [of "json_text J h"]
    by (simp add: decode_history_def)
  from enc dec show ?thesis by simp
qed

theorem history_wire_roundtrip_witness:
  "json_resolve json_default 0 (PList []) = Inr (PList [])
   \<and> json_loads sample_json (json_text sample_json (PList [])) = Inr (PList [])
   \<and> encode_history sample_json (PList []) = Inr (CHR 0x27 # ''[]'' @ [CHR 0x27])
   \<and> decode_history sample_json (CHR 0x27 # ''[]'' @ [CHR 0x27]) = Inr (PList [])"
  using history_wire_roundtrip [of "PList []" sample_json]
  by (simp add: sample_json_def quote_def)

subsection \<open>Removal leaves a tombstone\<close>

text \<open>
  C8. When the helper can be constructed and the store is reached, \<^verbatim>\<open>remove_chat\<close> of any
  context id removes the marker directory of that id and sets the key
  \<^verbatim>\<open>chat_history:<id>\<close> of the store to the payload of the empty list (the quoted JSON text of
  \<^verbatim>\<open>[]\<close>): the key is present afterwards, and no other key changes.
\<close>

theorem remove_chat_tombstone:
  assumes "\<not> instance_set w" and "reachable w"
  shows "\<exists>w'. remove_chat J w ctxid = Inr w'
           \<and> get_chat_folder_path ctxid \<notin> dirs w'
           \<and> store w' (''chat_history:'' @ ctxid) = Some (quote @ json_text J (PList []) @ quote)
           \<and> encode_history J (PList []) = Inr (quote @ json_text J (PList []) @ quote)
           \<and> (\<forall>k. k \<noteq> ''chat_history:'' @ ctxid \<longrightarrow> store w' k = store w k)"
  using assms
  by (simp add: remove_chat_def MemGraphHelper_new_def delete_dir_def save_history_def
      encode_history_def json_dumps_def send_command_def history_key_def)

theorem remove_chat_tombstone_witness:
  "\<not> instance_set sample_world \<and> reachable sample_world
   \<and> (\<exists>w'. remove_chat sample_json sample_world ''c1'' = Inr w'
          \<and> ''tmp/chats/c1'' \<notin> dirs w'
          \<and> store w' ''chat_history:c1'' = Some (CHR 0x27 # ''[]'' @ [CHR 0x27])
          \<and> snd (load_history sample_json w' ''c1'') = Inr (PList []))"
proof -
  from remove_chat_tombstone [of sample_world sample_json "''c1''"]
  obtain w' where r: "remove_chat sample_json sample_world ''c1'' = Inr w'"
    and d: "get_chat_folder_path ''c1'' \<notin> dirs w'"
    and s: "store w' (''chat_history:'' @ ''c1'')
              = Some (quote @ json_text sample_json (PList []) @ quote)"
    by (auto simp: sample_world_def)
  from r have re: "reachable w'"
    by (auto simp: remove_chat_def MemGraphHelper_new_def delete_dir_def save_history_def
        encode_history_def json_dumps_def send_command_def sample_world_def)
  have "snd (load_history sample_json w' ''c1'') = Inr (PList [])"
    using s re
    by (simp add: load_history_def send_command_def history_key_def decode_history_def
        sample_json_def quote_def Let_def)
  with r d s show ?thesis
    by (simp add: sample_world_def get_chat_folder_path_def CHATS_FOLDER_def sample_json_def
        quote_def)
qed

subsection \<open>The chain rebuilt from records\<close>

lemma parses_dict: "parses D r x \<Longrightarrow> \<exists>e. data x = PDict e"
  by (simp add: parses_def)

lemma parses_all_dict:
  "list_all2 (parses D) recs xs \<Longrightarrow> \<forall>x \<in> set xs. \<exists>e. data x = PDict e"
  by (induction recs xs rule: list_all2_induct) (auto dest: parses_dict)

lemma loop_Cons_None:
  assumes "parses D r x"
  shows "deserialize_agents_loop D hp None None (r # rest) =
           deserialize_agents_loop D (hp @ [x]) (Some (length hp)) (Some (length hp)) rest"
  using assms
  by (cases x) (auto simp: parses_def Agent_new_def Let_def split: sum.splits pv.splits)

lemma loop_Cons_Some:
  assumes "parses D r x" and "p < length hp" and "data (hp ! p) = PDict ep"
  shows "deserialize_agents_loop D hp (Some p) (Some z) (r # rest) =
           deserialize_agents_loop D
             (hp[p := (hp ! p)\<lparr>data := PDict (dict_set ep (DATA_NAME_SUBORDINATE D)
                                              (PAgent (length hp)))\<rparr>]
              @ [x\<lparr>data := link (DATA_NAME_SUPERIOR D) (Some p) (data x)\<rparr>])
             (Some (length hp)) (Some z) rest"
  using assms
  by (cases x) (auto simp: parses_def Agent_new_def Let_def set_data_def nth_append
      list_update_append split: sum.splits pv.splits)

lemma loop_Some:
  assumes "list_all2 (parses D) recs xs" and "p < length hp" and "data (hp ! p) = PDict ep"
  shows "deserialize_agents_loop D hp (Some p) (Some z) recs =
           Inr ((if recs = [] then hp
                 else hp[p := (hp ! p)\<lparr>data := PDict (dict_set ep (DATA_NAME_SUBORDINATE D)
                                                   (PAgent (length hp)))\<rparr>])
                @ build D (length hp) (Some p) xs, Some z)"
  using assms
proof (induction recs xs arbitrary: hp p ep rule: list_all2_induct)
  case Nil
  then show ?case by simp
next
  case (Cons r recs x xs)
  obtain e where e: "data x = PDict e"
    using Cons.hyps(1) by (auto dest: parses_dict)
  let ?hp1 = "hp[p := (hp ! p)\<lparr>data := PDict (dict_set ep (DATA_NAME_SUBORDINATE D)
                                                   (PAgent (length hp)))\<rparr>]"
  let ?x1 = "x\<lparr>data := link (DATA_NAME_SUPERIOR D) (Some p) (data x)\<rparr>"
  let ?hp2 = "?hp1 @ [?x1]"
  have st: "deserialize_agents_loop D hp (Some p) (Some z) (r # recs) =
           deserialize_agents_loop D ?hp2 (Some (length hp)) (Some z) recs"
    using loop_Cons_Some [OF Cons.hyps(1) Cons.prems] .
  have l: "length hp < length ?hp2" by simp
  have d: "data (?hp2 ! length hp) = PDict (dict_set e (DATA_NAME_SUPERIOR D) (PAgent p))"
    using e by (simp add: nth_append)
  have len: "length ?hp2 = Suc (length hp)" by simp
  have same: "list_all2 (parses D) recs xs \<Longrightarrow> (recs = []) = (xs = [])"
    by (auto simp: list_all2_conv_all_nth)
  show ?case
    unfolding st Cons.IH [OF l d]
    using e same [OF Cons.hyps(2)]
    by (simp add: nth_append list_update_append)
qed

lemma deserialize_agents_build:
  assumes "list_all2 (parses D) recs xs" and "recs \<noteq> []"
  shows "deserialize_agents D hp (PList recs) =
           Inr (hp @ build D (length hp) None xs, PAgent (length hp))"
proof -
  from assms obtain r rest x xs' where recs: "recs = r # rest" and xs: "xs = x # xs'"
    and p: "parses D r x" and r: "list_all2 (parses D) rest xs'"
    by (cases recs; cases xs) auto
  obtain e where e: "data x = PDict e"
    using p by (auto dest: parses_dict)
  have same: "(rest = []) = (xs' = [])"
    using r by (auto simp: list_all2_conv_all_nth)
  have "deserialize_agents_loop D hp None None recs =
          Inr ((if rest = [] then hp @ [x]
                else (hp @ [x])[length hp := ((hp @ [x]) ! length hp)
                   \<lparr>data := PDict (dict_set e (DATA_NAME_SUBORDINATE D)
                                     (PAgent (length (hp @ [x]))))\<rparr>])
               @ build D (length (hp @ [x])) (Some (length hp)) xs', Some (length hp))"
    unfolding recs loop_Cons_None [OF p]
    by (rule loop_Some [OF r]) (simp_all add: e)
  then show ?thesis
    using e same by (simp add: deserialize_agents_def xs list_update_append)
qed

lemma map_of_dict_set: "map_of (dict_set e k v) = (map_of e)(k \<mapsto> v)"
  by (induction e) (auto simp: fun_eq_iff)

lemma dict_get_dict_set:
  "dict_get (dict_set e k v) k' d = (if k' = k then v else dict_get e k' d)"
  by (simp add: dict_get_def map_of_dict_set)

lemma chain_to_build:
  assumes "DATA_NAME_SUBORDINATE D \<noteq> DATA_NAME_SUPERIOR D"
    and "\<forall>x \<in> set xs. \<exists>e. data x = PDict e"
    and "xs \<noteq> []"
    and "\<not> truthy t"
    and "py_get (data (last xs)) (DATA_NAME_SUBORDINATE D) PNone = Inr t"
  shows "chain_to D (pre @ build D (length pre) prev xs @ post) (PAgent (length pre))
           (build D (length pre) prev xs) t"
  using assms(2-)
proof (induction xs arbitrary: pre prev)
  case Nil
  then show ?case by simp
next
  case (Cons x xs)
  obtain e where e: "data x = PDict e"
    using Cons.prems(1) by auto
  let ?H = "pre @ build D (length pre) prev (x # xs) @ post"
  let ?x1 = "x\<lparr>data := link (DATA_NAME_SUBORDINATE D)
                     (if xs = [] then None else Some (Suc (length pre)))
                     (link (DATA_NAME_SUPERIOR D) prev (data x))\<rparr>"
  have hg: "heap_get ?H (PAgent (length pre)) = Inr ?x1"
    by (simp add: nth_append)
  show ?case
  proof (cases "xs = []")
    case True
    have "py_get (data ?x1) (DATA_NAME_SUBORDINATE D) PNone = Inr t"
      using True Cons.prems(4) e assms(1)
      by (cases prev) (simp_all add: dict_get_dict_set)
    from chain_step [OF hg this chain_end [OF Cons.prems(3)]] True
    show ?thesis by simp
  next
    case False
    have nx: "py_get (data ?x1) (DATA_NAME_SUBORDINATE D) PNone
                = Inr (PAgent (Suc (length pre)))"
      using False e by (cases prev) (simp_all add: dict_get_dict_set)
    have ih: "chain_to D ((pre @ [?x1]) @ build D (length (pre @ [?x1])) (Some (length pre)) xs
                            @ post)
                (PAgent (length (pre @ [?x1])))
                (build D (length (pre @ [?x1])) (Some (length pre)) xs) t"
      using Cons.prems False by (intro Cons.IH) simp_all
    have H: "?H = (pre @ [?x1]) @ build D (length (pre @ [?x1])) (Some (length pre)) xs @ post"
      by simp
    from chain_step [OF hg nx] ih H
    show ?thesis by simp
  qed
qed

subsection \<open>The search for the streaming agent\<close>

lemma heap_get_truthy: "heap_get hp v = Inr a \<Longrightarrow> truthy v"
  by (cases v) simp_all

lemma find_streaming_agent_no_match:
  assumes "chain_to D hp v nodes t"
    and "py_get dat ''streaming_agent'' (PInt 0) = Inr s"
    and "\<forall>a \<in> set nodes. \<not> py_eq (number a) s"
  shows "find_streaming_agent D hp dat v = Some (Inr t)"
  using assms
proof (induction rule: chain_to.induct)
  case (chain_end v)
  then show ?case by (subst find_streaming_agent.simps) simp
next
  case (chain_step v a nxt as t)
  then show ?case
    by (subst find_streaming_agent.simps) (simp add: heap_get_truthy)
qed

lemma find_streaming_agent_match:
  assumes "chain_to D hp v nodes t"
    and "py_get dat ''streaming_agent'' (PInt 0) = Inr s"
    and "nodes = pre @ a # post"
    and "\<forall>b \<in> set pre. \<not> py_eq (number b) s"
    and "py_eq (number a) s"
  shows "\<exists>r. find_streaming_agent D hp dat v = Some (Inr r) \<and> heap_get hp r = Inr a"
  using assms
proof (induction arbitrary: pre rule: chain_to.induct)
  case (chain_end v)
  then show ?case by simp
next
  case (chain_step v b nxt as t)
  have tr: "truthy v"
    using chain_step.hyps(1) by (cases v) simp_all
  show ?case
  proof (cases pre)
    case Nil
    with chain_step.prems have "b = a" by simp
    with chain_step tr show ?thesis
      by (subst find_streaming_agent.simps) simp
  next
    case (Cons p pre')
    with chain_step.prems have b: "b = p" "as = pre' @ a # post"
      "\<not> py_eq (number b) s" "\<forall>b \<in> set pre'. \<not> py_eq (number b) s"
      by simp_all
    from chain_step.IH [OF chain_step.prems(1) b(2) b(4) chain_step.prems(4)]
    obtain r where "find_streaming_agent D hp dat nxt = Some (Inr r)" "heap_get hp r = Inr a"
      by blast
    with chain_step.hyps chain_step.prems(1) b tr show ?thesis
      by (subst find_streaming_agent.simps) simp
  qed
qed

lemma find_streaming_agent_total:
  assumes "chain_to D hp v nodes t"
    and "py_get dat ''streaming_agent'' (PInt 0) = Inr s"
  shows "\<exists>r. find_streaming_agent D hp dat v = Some (Inr r)"
proof (cases "\<forall>a \<in> set nodes. \<not> py_eq (number a) s")
  case True
  from find_streaming_agent_no_match [OF assms True] show ?thesis by blast
next
  case False
  then obtain pre a post where "nodes = pre @ a # post"
    "\<forall>b \<in> set pre. \<not> py_eq (number b) s" "py_eq (number a) s"
    using split_list_first_prop [of nodes "\<lambda>a. py_eq (number a) s"] by blast
  from find_streaming_agent_match [OF assms this] show ?thesis by blast
qed

lemma deserialize_context_parsed:
  assumes "deserialize_context_head D dat = Inr c0"
    and "py_get dat ''agents'' (PList []) = Inr (PList recs)"
    and "list_all2 (parses D) recs xs" and "recs \<noteq> []"
    and "find_streaming_agent D (hp @ build D (length hp) None xs) dat (PAgent (length hp))
           = Some (Inr sa)"
  shows "deserialize_context D hp dat =
           Some (Inr (hp @ build D (length hp) None xs,
                      c0\<lparr>agent0 := PAgent (length hp), streaming_agent := sa\<rparr>))"
  using assms(1,2,5) deserialize_agents_build [OF assms(3,4), of hp]
  by (simp add: deserialize_context_def)

lemma deserialize_context_no_records:
  assumes "deserialize_context_head D dat = Inr c0"
    and "py_get dat ''agents'' (PList []) = Inr (PList [])"
    and "py_get dat ''streaming_agent'' (PInt 0) = Inr s"
  shows "deserialize_context D hp dat =
           Some (Inr (hp @ [\<lparr>number = PInt 0, data = PDict [], history = new_history D\<rparr>],
                      c0\<lparr>agent0 := PAgent (length hp),
                         streaming_agent := (if py_eq (PInt 0) s then PAgent (length hp)
                                             else PNone)\<rparr>))"
proof -
  let ?hp' = "hp @ [\<lparr>number = PInt 0, data = PDict [], history = new_history D\<rparr>]"
  have "find_streaming_agent D ?hp' dat (PAgent (length hp))
          = Some (Inr (if py_eq (PInt 0) s then PAgent (length hp) else PNone))"
    using assms(3)
    apply (subst find_streaming_agent.simps)
    apply (simp add: dict_get_def)
    apply (subst find_streaming_agent.simps)
    apply simp
    done
  then show ?thesis
    using assms(1,2)
    by (simp add: deserialize_context_def deserialize_agents_def Agent_new_def)
qed

lemma build_number: "map number (build D a prev xs) = map number xs"
  by (induction xs arbitrary: a prev) simp_all

lemma build_length: "length (build D a prev xs) = length xs"
  by (induction xs arbitrary: a prev) simp_all



lemma sample_records_parse: "list_all2 (parses sample_deps) sample_records sample_nodes"
  by (simp add: sample_records_def sample_nodes_def parses_def dict_item_def dict_get_def
      sample_deps_def)



subsection \<open>Legacy records\<close>

text \<open>
  C5 (amended). A stored record without \<open>created_at\<close>, \<open>last_message\<close> and \<open>type\<close>, whose
  log deserializes and whose agent records each give a number, a mapping as data and a
  history (the last one having no subordinate entry of its own), is deserialized without an
  error: the timestamps of the context are the epoch-zero timestamp and its type is
  \<open>USER\<close>. The library is assumed to parse the ISO text of the epoch back to the epoch, and
  the enumeration to find \<open>USER\<close> by its value.
\<close>

theorem legacy_record_defaults:
  assumes "map_of d ''created_at'' = None" and "map_of d ''last_message'' = None"
    and "map_of d ''type'' = None"
    and "fromisoformat D (PStr (isoformat D (epoch D))) = Inr (epoch D)"
    and "AgentContextType_of D (type_value D USER) = Inr USER"
    and "deserialize_log D (dict_get d ''log'' PNone) = Inr lg"
    and "dict_get d ''agents'' (PList []) = PList recs"
    and "list_all2 (parses D) recs xs"
    and "DATA_NAME_SUBORDINATE D \<noteq> DATA_NAME_SUPERIOR D"
    and "xs \<noteq> [] \<longrightarrow> py_get (data (last xs)) (DATA_NAME_SUBORDINATE D) PNone = Inr PNone"
  shows "\<exists>hp' c. deserialize_context D hp (PDict d) = Some (Inr (hp', c))
           \<and> created_at c = Some (epoch D) \<and> last_message c = Some (epoch D)
           \<and> ctx_type c = USER \<and> ctx_log c = lg \<and> \<not> paused c"
proof -
  let ?c0 = "AgentContext_new D (dict_get d ''id'' PNone) (dict_get d ''name'' PNone)
               (epoch D) USER (epoch D) lg False"
  have head: "deserialize_context_head D (PDict d) = Inr ?c0"
    using assms(1-6) by (simp add: deserialize_context_head_def dict_get_def)
  have ag: "py_get (PDict d) ''agents'' (PList []) = Inr (PList recs)"
    using assms(7) by simp
  have st: "py_get (PDict d) ''streaming_agent'' (PInt 0)
              = Inr (dict_get d ''streaming_agent'' (PInt 0))"
    by simp
  have f: "created_at ?c0 = Some (epoch D) \<and> last_message ?c0 = Some (epoch D)
           \<and> ctx_type ?c0 = USER \<and> ctx_log ?c0 = lg \<and> \<not> paused ?c0"
    by (simp add: AgentContext_new_def)
  show ?thesis
  proof (cases "xs = []")
    case True
    with assms(8) have "recs = []" by simp
    with deserialize_context_no_records [OF head _ st, of hp] ag f
    show ?thesis by simp
  next
    case False
    with assms(8) have ne: "recs \<noteq> []" by auto
    have ch: "chain_to D (hp @ build D (length hp) None xs @ []) (PAgent (length hp))
              (build D (length hp) None xs) PNone"
      using False assms(9,10) parses_all_dict [OF assms(8)]
      by (intro chain_to_build) simp_all
    from find_streaming_agent_total [OF ch st]
    obtain r where "find_streaming_agent D (hp @ build D (length hp) None xs) (PDict d)
                      (PAgent (length hp)) = Some (Inr r)"
      by auto
    from deserialize_context_parsed [OF head ag assms(8) ne this] f
    show ?thesis by simp
  qed
qed

theorem legacy_record_defaults_witness:
  "map_of sample_legacy ''created_at'' = None \<and> map_of sample_legacy ''last_message'' = None
   \<and> map_of sample_legacy ''type'' = None
   \<and> list_all2 (parses sample_deps) sample_records sample_nodes
   \<and> (\<exists>hp' c. deserialize_context sample_deps [] (PDict sample_legacy) = Some (Inr (hp', c))
          \<and> created_at c = Some ''1970-01-01T00:00:00''
          \<and> last_message c = Some ''1970-01-01T00:00:00''
          \<and> ctx_type c = USER
          \<and> map li_type (logs (ctx_log c)) = [PStr ''info''])"
proof -
  let ?lg = "\<lparr>guid = PStr ''g'',
             logs = [\<lparr>li_no = 0, li_type = PStr ''info'', li_heading = PStr [],
                      li_content = PStr [], li_kvps = None, li_temp = PBool False\<rparr>],
             updates = [0], progress = PStr [], progress_no = PInt 0\<rparr>"
  have h: "map_of sample_legacy ''created_at'' = None"
    "map_of sample_legacy ''last_message'' = None"
    "map_of sample_legacy ''type'' = None"
    by (simp_all add: sample_legacy_def)
  have l: "fromisoformat sample_deps (PStr (isoformat sample_deps (epoch sample_deps)))
             = Inr (epoch sample_deps)"
    "AgentContextType_of sample_deps (type_value sample_deps USER) = Inr USER"
    "DATA_NAME_SUBORDINATE sample_deps \<noteq> DATA_NAME_SUPERIOR sample_deps"
    "sample_nodes \<noteq> [] \<longrightarrow>
       py_get (data (last sample_nodes)) (DATA_NAME_SUBORDINATE sample_deps) PNone = Inr PNone"
    by (simp_all add: sample_deps_def AgentContextType_of_def sample_nodes_def dict_get_def)
  have lg: "deserialize_log sample_deps (dict_get sample_legacy ''log'' PNone) = Inr ?lg"
    by (simp add: sample_legacy_def dict_get_def deserialize_log_def make_logitem_def
        kvps_of_def dict_item_def Log_new_def sample_deps_def)
  have a: "dict_get sample_legacy ''agents'' (PList []) = PList sample_records"
    by (simp add: sample_legacy_def dict_get_def)
  from legacy_record_defaults [OF h l(1,2) lg a sample_records_parse l(3,4), of "[]"]
    h sample_records_parse
  show ?thesis by (auto simp: sample_deps_def)
qed

text \<open>
  C5 as stated fails: the record \<^verbatim>\<open>{"log": {"logs": [{"heading": "x"}]}}\<close> has a log field
  and lacks the three fields, and its deserialization raises KeyError on \<open>type\<close>.
\<close>

theorem legacy_record_malformed_log_raises:
  "map_of [(''log'', PDict [(''logs'', PList [PDict [(''heading'', PStr ''x'')]])])] ''log'' \<noteq> None
   \<and> map_of [(''log'', PDict [(''logs'', PList [PDict [(''heading'', PStr ''x'')]])])]
        ''created_at'' = None
   \<and> map_of [(''log'', PDict [(''logs'', PList [PDict [(''heading'', PStr ''x'')]])])]
        ''last_message'' = None
   \<and> map_of [(''log'', PDict [(''logs'', PList [PDict [(''heading'', PStr ''x'')]])])]
        ''type'' = None
   \<and> deserialize_context sample_deps []
        (PDict [(''log'', PDict [(''logs'', PList [PDict [(''heading'', PStr ''x'')]])])])
        = Some (Inl (KeyError ''type''))"
  by (simp add: deserialize_context_def deserialize_context_head_def dict_get_def
      deserialize_log_def make_logitem_def dict_item_def)

subsection \<open>Round trip of the log\<close>

lemma make_logitem_output:
  "make_logitem i (LogItem_output it) = Inr ((norm_kvps it)\<lparr>li_no := i\<rparr>)"
  by (cases it; cases "li_kvps it")
     (auto simp: make_logitem_def LogItem_output_def kvps_of_def dict_item_def dict_get_def
        norm_kvps_def)

lemma deserialize_log_loop_output:
  "deserialize_log_loop i lg (map LogItem_output its) =
     Inr (lg\<lparr>logs := logs lg @ renumber i (map norm_kvps its),
             updates := updates lg @ map li_no (renumber i (map norm_kvps its))\<rparr>)"
proof (induction its arbitrary: i lg)
  case Nil
  then show ?case by simp
next
  case (Cons it its)
  show ?case
    by (simp add: make_logitem_output Cons.IH)
qed

lemma deserialize_log_serialize_log:
  "deserialize_log D (PDict (serialize_log LogItem_output lg)) = Inr (relog D lg)"
  by (simp add: deserialize_log_def serialize_log_def dict_get_def
      deserialize_log_loop_output Log_new_def relog_def)

lemma renumber_length [simp]: "length (renumber i its) = length its"
  by (induction its arbitrary: i) simp_all

lemma renumber_no: "map li_no (renumber i its) = map (\<lambda>k. i + int k) [0..<length its]"
proof (induction its arbitrary: i)
  case Nil
  then show ?case by simp
next
  case (Cons it its)
  have "map (\<lambda>k. i + int k) [0..<Suc (length its)]
          = i # map (\<lambda>k. i + 1 + int k) [0..<length its]"
    by (simp add: upt_conv_Cons map_Suc_upt [symmetric] del: upt_Suc)
  with Cons show ?case by simp
qed

lemma renumber_fields:
  "map li_type (renumber i its) = map li_type its"
  "map li_heading (renumber i its) = map li_heading its"
  "map li_content (renumber i its) = map li_content its"
  "map li_kvps (renumber i its) = map li_kvps its"
  "map li_temp (renumber i its) = map li_temp its"
  by (induction its arbitrary: i) simp_all

lemma norm_kvps_id: "\<forall>it \<in> set its. li_kvps it \<noteq> Some [] \<Longrightarrow> map norm_kvps its = its"
  by (induction its) (simp_all add: norm_kvps_def)

lemma slice_last_short: "length xs \<le> n \<Longrightarrow> slice_last n xs = xs"
  by (simp add: slice_last_def)

subsection \<open>Round trip of the agent chain\<close>

lemma serialize_agent_record:
  "data a = PDict e \<Longrightarrow> serialize_agent D a = Inr (agent_record D a)"
  by (simp add: serialize_agent_def agent_record_def)

lemma serialize_agents_chain:
  assumes "chain_to D hp v nodes t" and "\<forall>a \<in> set nodes. \<exists>e. data a = PDict e"
  shows "serialize_agents D hp acc v = Some (Inr (acc @ map (agent_record D) nodes))"
  using assms
proof (induction arbitrary: acc rule: chain_to.induct)
  case (chain_end v)
  then show ?case by (subst serialize_agents.simps) simp
next
  case (chain_step v a nxt as t)
  then obtain e where "data a = PDict e" by auto
  with chain_step show ?case
    by (subst serialize_agents.simps)
       (simp add: heap_get_truthy serialize_agent_record)
qed

lemma parses_agent_record:
  assumes "data a = PDict e"
    and "deserialize_history D (history_serialize D (history a)) = Inr (history a)"
  shows "parses D (agent_record D a) (exported a)"
  using assms
  by (simp add: parses_def agent_record_def exported_def dict_item_def dict_get_def)

lemma parses_agent_records:
  assumes "\<forall>a \<in> set nodes. \<exists>e. data a = PDict e"
    and "\<forall>a \<in> set nodes. deserialize_history D (history_serialize D (history a))
                              = Inr (history a)"
  shows "list_all2 (parses D) (map (agent_record D) nodes) (map exported nodes)"
  using assms
  by (induction nodes) (auto intro: parses_agent_record)

lemma chain_to_last:
  assumes "chain_to D hp v nodes t"
  shows "\<not> truthy t \<and>
         (nodes \<noteq> [] \<longrightarrow> py_get (data (last nodes)) (DATA_NAME_SUBORDINATE D) PNone = Inr t)"
  using assms
proof (induction rule: chain_to.induct)
  case (chain_end v)
  then show ?case by simp
next
  case (chain_step v a nxt as t)
  then show ?case by (cases as) (auto elim: chain_to.cases)
qed

lemma map_of_filter_key:
  "map_of (filter (\<lambda>kv. Q (fst kv)) e) k = (if Q k then map_of e k else None)"
  by (induction e) auto

lemma filter_dict_set:
  "\<not> Q k \<Longrightarrow> filter (\<lambda>kv. Q (fst kv)) (dict_set e k v) = filter (\<lambda>kv. Q (fst kv)) e"
  by (induction e) auto

lemma own_data_link:
  assumes "k = DATA_NAME_SUBORDINATE D \<or> k = DATA_NAME_SUPERIOR D"
  shows "own_data D (link k p d) = own_data D d"
proof (cases p)
  case None
  then show ?thesis by simp
next
  case (Some a)
  show ?thesis
  proof (cases d)
    case (PDict e)
    with Some assms show ?thesis
      using filter_dict_set [of "\<lambda>x. x \<noteq> DATA_NAME_SUBORDINATE D \<and> x \<noteq> DATA_NAME_SUPERIOR D"
          k e "PAgent a"]
      by auto
  qed (simp_all add: Some)
qed

lemma own_data_strip_private:
  assumes "data a = PDict e"
    and "\<forall>k \<in> fst ` set e. k \<noteq> DATA_NAME_SUBORDINATE D \<and> k \<noteq> DATA_NAME_SUPERIOR D
           \<longrightarrow> \<not> starts_underscore k"
  shows "own_data D (strip_private (data a)) = own_data D (data a)"
  using assms by (auto intro!: filter_cong)

lemma build_history: "map history (build D a prev xs) = map history xs"
  by (induction xs arbitrary: a prev) simp_all

lemma build_own_data:
  "map (\<lambda>x. own_data D (data x)) (build D a prev xs) = map (\<lambda>x. own_data D (data x)) xs"
  by (induction xs arbitrary: a prev) (simp_all add: own_data_link)

subsection \<open>Round trip of the context\<close>

lemma exported_dict: "\<exists>e. data a = PDict e \<Longrightarrow> \<exists>e. data (exported a) = PDict e"
  by (auto simp: exported_def)

lemma exported_tail:
  assumes "data a = PDict e" and "py_get (data a) k PNone = Inr t" and "\<not> truthy t"
  shows "\<exists>t'. py_get (data (exported a)) k PNone = Inr t' \<and> \<not> truthy t'"
  using assms map_of_filter_key [of "\<lambda>k. \<not> starts_underscore k" e k]
  by (auto simp: exported_def dict_get_def)

lemma context_update_eq:
  assumes "created_at c = Some t1" and "last_message c = Some t2" and "ctx_id c \<noteq> PNone"
  shows "(AgentContext_new D (ctx_id c) (ctx_name c) t1 (ctx_type c) t2 lg False)
           \<lparr>agent0 := a, streaming_agent := sa\<rparr>
         = c\<lparr>agent0 := a, streaming_agent := sa, ctx_log := lg, paused := False\<rparr>"
  using assms by (cases c) (simp add: AgentContext_new_def)

lemma roundtrip_general:
  assumes chain: "chain_to D hp (agent0 c) nodes t" and ne: "nodes \<noteq> []"
    and dicts: "\<forall>a \<in> set nodes. \<exists>e. data a = PDict e"
    and links: "DATA_NAME_SUBORDINATE D \<noteq> DATA_NAME_SUPERIOR D"
    and hist: "\<forall>a \<in> set nodes. deserialize_history D (history_serialize D (history a))
                                  = Inr (history a)"
    and t1: "created_at c = Some t1" "fromisoformat D (PStr (isoformat D t1)) = Inr t1"
    and t2: "last_message c = Some t2" "fromisoformat D (PStr (isoformat D t2)) = Inr t2"
    and ty: "AgentContextType_of D (type_value D (ctx_type c)) = Inr (ctx_type c)"
    and cid: "ctx_id c \<noteq> PNone"
    and sa: "truthy (streaming_agent c) \<longrightarrow> (\<exists>a. heap_get hp (streaming_agent c) = Inr a)"
  shows "\<exists>sa t'. roundtrip D hp c =
           Some (Inr (hp @ build D (length hp) None (map exported nodes),
                      c\<lparr>agent0 := PAgent (length hp), streaming_agent := sa,
                        ctx_log := relog D (ctx_log c), paused := False\<rparr>))
         \<and> chain_to D (hp @ build D (length hp) None (map exported nodes)) (PAgent (length hp))
              (build D (length hp) None (map exported nodes)) t'"
proof -
  let ?recs = "map (agent_record D) nodes"
  let ?xs = "map exported nodes"
  let ?hp' = "hp @ build D (length hp) None ?xs"
  obtain s where s: "(if truthy (streaming_agent c)
                       then ebind (heap_get hp (streaming_agent c)) (\<lambda>a. Inr (number a))
                       else Inr (PInt 0)) = Inr s"
    using sa by (cases "truthy (streaming_agent c)") auto
  let ?ser = "[(''id'', ctx_id c), (''name'', ctx_name c),
               (''created_at'', iso_or_epoch D (created_at c)),
               (''type'', type_value D (ctx_type c)),
               (''last_message'', iso_or_epoch D (last_message c)),
               (''agents'', PList ?recs), (''streaming_agent'', s),
               (''log'', PDict (serialize_log LogItem_output (ctx_log c)))]"
  have ser: "serialize_context D hp c = Some (Inr ?ser)"
    using serialize_agents_chain [OF chain dicts, of "[]"] s
    by (simp add: serialize_context_def)
  let ?c0 = "AgentContext_new D (ctx_id c) (ctx_name c) t1 (ctx_type c) t2
               (relog D (ctx_log c)) False"
  have head: "deserialize_context_head D (PDict ?ser) = Inr ?c0"
    using t1 t2 ty
    by (simp add: deserialize_context_head_def dict_get_def iso_or_epoch_def
        deserialize_log_serialize_log)
  have ag: "py_get (PDict ?ser) ''agents'' (PList []) = Inr (PList ?recs)"
    by (simp add: dict_get_def)
  have st: "py_get (PDict ?ser) ''streaming_agent'' (PInt 0) = Inr s"
    by (simp add: dict_get_def)
  have ps: "list_all2 (parses D) ?recs ?xs"
    using dicts hist by (rule parses_agent_records)
  have rne: "?recs \<noteq> []" using ne by simp
  from chain_to_last [OF chain] ne
  have tl: "\<not> truthy t" "py_get (data (last nodes)) (DATA_NAME_SUBORDINATE D) PNone = Inr t"
    by simp_all
  obtain e where e: "data (last nodes) = PDict e"
    using dicts ne by (meson last_in_set)
  from exported_tail [OF e tl(2) tl(1)]
  obtain t' where t': "py_get (data (exported (last nodes))) (DATA_NAME_SUBORDINATE D) PNone
                         = Inr t'" "\<not> truthy t'"
    by blast
  have xd: "\<forall>x \<in> set ?xs. \<exists>e. data x = PDict e"
    using dicts by (auto intro: exported_dict)
  have ch: "chain_to D (hp @ build D (length hp) None ?xs @ []) (PAgent (length hp))
              (build D (length hp) None ?xs) t'"
    using ne t' xd links by (intro chain_to_build) (simp_all add: last_map)
  from find_streaming_agent_total [OF ch st]
  obtain r where r: "find_streaming_agent D ?hp' (PDict ?ser) (PAgent (length hp))
                       = Some (Inr r)"
    by auto
  from deserialize_context_parsed [OF head ag ps rne r] ser
  have "roundtrip D hp c =
          Some (Inr (?hp', ?c0\<lparr>agent0 := PAgent (length hp), streaming_agent := r\<rparr>))"
    by (simp add: roundtrip_def)
  then have "roundtrip D hp c =
          Some (Inr (?hp', c\<lparr>agent0 := PAgent (length hp), streaming_agent := r,
                             ctx_log := relog D (ctx_log c), paused := False\<rparr>))"
    by (simp only: context_update_eq [OF t1(1) t2(1) cid])
  with ch show ?thesis
    by (intro exI [of _ r] exI [of _ t']) simp
qed

lemma build_superior:
  assumes "DATA_NAME_SUBORDINATE D \<noteq> DATA_NAME_SUPERIOR D"
    and "\<forall>x \<in> set xs. \<exists>e. data x = PDict e"
    and "i < length xs"
    and "prev = Some p \<or> 0 < i"
  shows "py_get (data (build D a prev xs ! i)) (DATA_NAME_SUPERIOR D) PNone
           = Inr (PAgent (if i = 0 then p else a + i - 1))"
  using assms(2-)
proof (induction xs arbitrary: a prev i p)
  case Nil
  then show ?case by simp
next
  case (Cons x xs)
  obtain e where e: "data x = PDict e" using Cons.prems(1) by auto
  show ?case
  proof (cases i)
    case 0
    with Cons.prems e assms(1) show ?thesis
      by (auto simp: dict_get_dict_set)
  next
    case (Suc j)
    have "py_get (data (build D (Suc a) (Some a) xs ! j)) (DATA_NAME_SUPERIOR D) PNone
            = Inr (PAgent (if j = 0 then a else Suc a + j - 1))"
      using Cons.prems Suc by (intro Cons.IH) simp_all
    with Suc show ?thesis by (cases j) simp_all
  qed
qed

text \<open>
  C1 (amended). Let \<open>c\<close> be a context whose agent chain is a finite chain of at least one
  agent, each with a mapping as data bag in which no key other than the two link keys starts
  with an underscore; whose id and timestamps are set; whose streaming agent is absent or an
  agent; whose log holds at most 1000 entries, none with an empty \<open>kvps\<close> mapping. Assume the
  library reads back the ISO texts and the serialized histories, and the enumeration finds
  the type by its value. Then \<^verbatim>\<open>_deserialize_context(_serialize_context(c))\<close> returns a
  context with the same id, name, timestamps and type, whose chain consists of new agents, as
  many as before, with the same numbers, the same data (the link entries apart, which point
  to the new neighbours) and the same histories, and whose log has the same guid and the same
  entries in type, heading, content, kvps and temp; the entries are numbered from 0,
  \<open>updates\<close> lists the same indices, and the progress markers are the initial ones.
\<close>

theorem context_roundtrip:
  assumes "chain_to D hp (agent0 c) nodes t" and "nodes \<noteq> []"
    and "\<forall>a \<in> set nodes. \<exists>e. data a = PDict e
           \<and> (\<forall>k \<in> fst ` set e. k \<noteq> DATA_NAME_SUBORDINATE D \<and> k \<noteq> DATA_NAME_SUPERIOR D
                  \<longrightarrow> \<not> starts_underscore k)"
    and "DATA_NAME_SUBORDINATE D \<noteq> DATA_NAME_SUPERIOR D"
    and "\<forall>a \<in> set nodes. deserialize_history D (history_serialize D (history a))
                              = Inr (history a)"
    and "created_at c = Some t1" and "fromisoformat D (PStr (isoformat D t1)) = Inr t1"
    and "last_message c = Some t2" and "fromisoformat D (PStr (isoformat D t2)) = Inr t2"
    and "AgentContextType_of D (type_value D (ctx_type c)) = Inr (ctx_type c)"
    and "ctx_id c \<noteq> PNone"
    and "truthy (streaming_agent c) \<longrightarrow> (\<exists>a. heap_get hp (streaming_agent c) = Inr a)"
    and "length (logs (ctx_log c)) \<le> 1000"
    and "\<forall>it \<in> set (logs (ctx_log c)). li_kvps it \<noteq> Some []"
  shows "\<exists>c' nodes' t'.
           roundtrip D hp c = Some (Inr (hp @ nodes', c'))
         \<and> ctx_id c' = ctx_id c \<and> ctx_name c' = ctx_name c
         \<and> created_at c' = created_at c \<and> last_message c' = last_message c
         \<and> ctx_type c' = ctx_type c
         \<and> agent0 c' = PAgent (length hp)
         \<and> chain_to D (hp @ nodes') (agent0 c') nodes' t'
         \<and> length nodes' = length nodes
         \<and> map number nodes' = map number nodes
         \<and> map (\<lambda>x. own_data D (data x)) nodes' = map (\<lambda>x. own_data D (data x)) nodes
         \<and> map history nodes' = map history nodes
         \<and> (\<forall>i. 0 < i \<and> i < length nodes' \<longrightarrow>
               py_get (data (nodes' ! i)) (DATA_NAME_SUPERIOR D) PNone
                 = Inr (PAgent (length hp + i - 1)))
         \<and> guid (ctx_log c') = guid (ctx_log c)
         \<and> map li_type (logs (ctx_log c')) = map li_type (logs (ctx_log c))
         \<and> map li_heading (logs (ctx_log c')) = map li_heading (logs (ctx_log c))
         \<and> map li_content (logs (ctx_log c')) = map li_content (logs (ctx_log c))
         \<and> map li_kvps (logs (ctx_log c')) = map li_kvps (logs (ctx_log c))
         \<and> map li_temp (logs (ctx_log c')) = map li_temp (logs (ctx_log c))
         \<and> map li_no (logs (ctx_log c')) = map int [0..<length (logs (ctx_log c))]
         \<and> updates (ctx_log c') = map int [0..<length (logs (ctx_log c))]
         \<and> progress (ctx_log c') = initial_progress D
         \<and> progress_no (ctx_log c') = initial_progress_no D"
proof -
  have dicts: "\<forall>a \<in> set nodes. \<exists>e. data a = PDict e"
    using assms(3) by blast
  let ?nodes' = "build D (length hp) None (map exported nodes)"
  from roundtrip_general [OF assms(1,2) dicts assms(4-12)]
  obtain sa t' where
    rt: "roundtrip D hp c =
           Some (Inr (hp @ ?nodes',
                      c\<lparr>agent0 := PAgent (length hp), streaming_agent := sa,
                        ctx_log := relog D (ctx_log c), paused := False\<rparr>))"
    and ch: "chain_to D (hp @ ?nodes') (PAgent (length hp)) ?nodes' t'"
    by blast
  let ?c' = "c\<lparr>agent0 := PAgent (length hp), streaming_agent := sa,
               ctx_log := relog D (ctx_log c), paused := False\<rparr>"
  have "own_data D (data (exported x)) = own_data D (data x)" if "x \<in> set nodes" for x
  proof -
    from that assms(3) obtain e where "data x = PDict e"
      "\<forall>k \<in> fst ` set e. k \<noteq> DATA_NAME_SUBORDINATE D \<and> k \<noteq> DATA_NAME_SUPERIOR D
           \<longrightarrow> \<not> starts_underscore k"
      by blast
    from own_data_strip_private [OF this] show ?thesis
      by (simp add: exported_def)
  qed
  then have own: "map (\<lambda>x. own_data D (data x)) (map exported nodes)
               = map (\<lambda>x. own_data D (data x)) nodes"
    by simp
  have xd: "\<forall>x \<in> set (map exported nodes). \<exists>e. data x = PDict e"
    using dicts by (auto intro: exported_dict)
  have sup: "\<forall>i. 0 < i \<and> i < length ?nodes' \<longrightarrow>
               py_get (data (?nodes' ! i)) (DATA_NAME_SUPERIOR D) PNone
                 = Inr (PAgent (length hp + i - 1))"
    using build_superior [OF assms(4) xd, of _ None 0 "length hp"]
    by (auto simp: build_length)
  have lg: "logs (relog D (ctx_log c)) = renumber 0 (logs (ctx_log c))"
    using assms(13,14)
    by (simp add: relog_def slice_last_short LOG_SIZE_def norm_kvps_id)
  have up: "updates (relog D (ctx_log c)) = map li_no (renumber 0 (logs (ctx_log c)))"
    using assms(13,14)
    by (simp add: relog_def slice_last_short LOG_SIZE_def norm_kvps_id)
  have f1: "ctx_id ?c' = ctx_id c \<and> ctx_name ?c' = ctx_name c
         \<and> created_at ?c' = created_at c \<and> last_message ?c' = last_message c
         \<and> ctx_type ?c' = ctx_type c \<and> agent0 ?c' = PAgent (length hp)"
    by simp
  have f2: "length ?nodes' = length nodes \<and> map number ?nodes' = map number nodes
         \<and> map (\<lambda>x. own_data D (data x)) ?nodes' = map (\<lambda>x. own_data D (data x)) nodes
         \<and> map history ?nodes' = map history nodes"
    using own by (simp add: build_length build_number build_history build_own_data
        exported_def comp_def)
  have f3: "guid (ctx_log ?c') = guid (ctx_log c)
         \<and> map li_type (logs (ctx_log ?c')) = map li_type (logs (ctx_log c))
         \<and> map li_heading (logs (ctx_log ?c')) = map li_heading (logs (ctx_log c))
         \<and> map li_content (logs (ctx_log ?c')) = map li_content (logs (ctx_log c))
         \<and> map li_kvps (logs (ctx_log ?c')) = map li_kvps (logs (ctx_log c))
         \<and> map li_temp (logs (ctx_log ?c')) = map li_temp (logs (ctx_log c))
         \<and> map li_no (logs (ctx_log ?c')) = map int [0..<length (logs (ctx_log c))]
         \<and> updates (ctx_log ?c') = map int [0..<length (logs (ctx_log c))]
         \<and> progress (ctx_log ?c') = initial_progress D
         \<and> progress_no (ctx_log ?c') = initial_progress_no D"
    by (simp add: lg up renumber_fields renumber_no) (simp add: relog_def)
  from ch have ch': "chain_to D (hp @ ?nodes') (agent0 ?c') ?nodes' t'"
    by simp
  show ?thesis
    apply (rule exI [of _ ?c'], rule exI [of _ ?nodes'], rule exI [of _ t'])
    apply (intro conjI)
    using rt f1 f2 f3 ch' sup apply blast+
    done
qed

lemma sample_chain:
  "chain_to sample_deps sample_heap (PAgent 0) sample_heap PNone"
proof -
  have 1: "chain_to sample_deps sample_heap PNone [] PNone"
    by (rule chain_end) simp
  have 2: "chain_to sample_deps sample_heap (PAgent 1) [sample_heap ! 1] PNone"
    by (rule chain_step [OF _ _ 1]) (simp_all add: sample_heap_def sample_deps_def dict_get_def)
  have "chain_to sample_deps sample_heap (PAgent 0) [sample_heap ! 0, sample_heap ! 1] PNone"
    by (rule chain_step [OF _ _ 2]) (simp_all add: sample_heap_def sample_deps_def dict_get_def)
  then show ?thesis by (simp add: sample_heap_def)
qed

lemma sample_deps_fields:
  "DATA_NAME_SUBORDINATE sample_deps = ''_subordinate''"
  "DATA_NAME_SUPERIOR sample_deps = ''_superior''"
  "deserialize_history sample_deps (history_serialize sample_deps h) = Inr h"
  "fromisoformat sample_deps (PStr (isoformat sample_deps s)) = Inr s"
  "AgentContextType_of sample_deps (type_value sample_deps ty) = Inr ty"
  "initial_progress sample_deps = PStr []" "initial_progress_no sample_deps = PInt 0"
  by (simp_all add: sample_deps_def AgentContextType_of_def split: AgentContextType.splits)

theorem context_roundtrip_witness:
  "chain_to sample_deps sample_heap (agent0 (sample_context 2)) sample_heap PNone
   \<and> (\<exists>c' nodes' t'.
         roundtrip sample_deps sample_heap (sample_context 2)
           = Some (Inr (sample_heap @ nodes', c'))
       \<and> ctx_id c' = PStr ''c1'' \<and> ctx_name c' = PStr ''chat''
       \<and> created_at c' = Some ''2024-01-01T10:00:00''
       \<and> last_message c' = Some ''2024-01-02T11:30:00''
       \<and> ctx_type c' = TASK
       \<and> agent0 c' = PAgent 2
       \<and> chain_to sample_deps (sample_heap @ nodes') (agent0 c') nodes' t'
       \<and> map number nodes' = [PInt 0, PInt 1]
       \<and> map (\<lambda>x. own_data sample_deps (data x)) nodes' = [PDict [(''k'', PStr ''v'')], PDict []]
       \<and> map history nodes' = [PStr ''h0'', PStr ''h1'']
       \<and> map li_type (logs (ctx_log c')) = [PStr ''info'', PStr ''info'']
       \<and> map li_no (logs (ctx_log c')) = [0, 1]
       \<and> updates (ctx_log c') = [0, 1])"
proof -
  have c: "chain_to sample_deps sample_heap (agent0 (sample_context 2)) sample_heap PNone"
    using sample_chain by (simp add: sample_context_def)
  have h: "sample_heap \<noteq> []"
    "\<forall>a \<in> set sample_heap. \<exists>e. data a = PDict e
           \<and> (\<forall>k \<in> fst ` set e. k \<noteq> DATA_NAME_SUBORDINATE sample_deps
                                \<and> k \<noteq> DATA_NAME_SUPERIOR sample_deps
                  \<longrightarrow> \<not> starts_underscore k)"
    "DATA_NAME_SUBORDINATE sample_deps \<noteq> DATA_NAME_SUPERIOR sample_deps"
    "\<forall>a \<in> set sample_heap.
        deserialize_history sample_deps (history_serialize sample_deps (history a))
          = Inr (history a)"
    by (simp_all add: sample_heap_def sample_deps_fields starts_underscore_def)
  have t: "created_at (sample_context 2) = Some ''2024-01-01T10:00:00''"
    "last_message (sample_context 2) = Some ''2024-01-02T11:30:00''"
    "ctx_id (sample_context 2) \<noteq> PNone"
    "truthy (streaming_agent (sample_context 2)) \<longrightarrow>
       (\<exists>a. heap_get sample_heap (streaming_agent (sample_context 2)) = Inr a)"
    "length (logs (ctx_log (sample_context 2))) \<le> 1000"
    "\<forall>it \<in> set (logs (ctx_log (sample_context 2))). li_kvps it \<noteq> Some []"
    by (simp_all add: sample_context_def sample_heap_def sample_log_def sample_item_def)
  have m: "map number sample_heap = [PInt 0, PInt 1]"
    "map (\<lambda>x. own_data sample_deps (data x)) sample_heap = [PDict [(''k'', PStr ''v'')], PDict []]"
    "map history sample_heap = [PStr ''h0'', PStr ''h1'']"
    "map li_type (logs (ctx_log (sample_context 2))) = [PStr ''info'', PStr ''info'']"
    "map int [0..<length (logs (ctx_log (sample_context 2)))] = [0, 1]"
    "ctx_id (sample_context 2) = PStr ''c1''" "ctx_name (sample_context 2) = PStr ''chat''"
    "ctx_type (sample_context 2) = TASK" "length sample_heap = 2"
    by (simp_all add: sample_heap_def sample_deps_fields sample_context_def sample_log_def
        sample_item_def upt_rec)
  from context_roundtrip [OF c h(1,2,3,4) t(1) sample_deps_fields(4) t(2) sample_deps_fields(4)
      sample_deps_fields(5) t(3,4,5,6)]
  obtain c' nodes' t' where r:
    "roundtrip sample_deps sample_heap (sample_context 2) = Some (Inr (sample_heap @ nodes', c'))"
    "ctx_id c' = ctx_id (sample_context 2)" "ctx_name c' = ctx_name (sample_context 2)"
    "created_at c' = created_at (sample_context 2)"
    "last_message c' = last_message (sample_context 2)"
    "ctx_type c' = ctx_type (sample_context 2)"
    "agent0 c' = PAgent (length sample_heap)"
    "chain_to sample_deps (sample_heap @ nodes') (agent0 c') nodes' t'"
    "map number nodes' = map number sample_heap"
    "map (\<lambda>x. own_data sample_deps (data x)) nodes'
       = map (\<lambda>x. own_data sample_deps (data x)) sample_heap"
    "map history nodes' = map history sample_heap"
    "map li_type (logs (ctx_log c')) = map li_type (logs (ctx_log (sample_context 2)))"
    "map li_no (logs (ctx_log c')) = map int [0..<length (logs (ctx_log (sample_context 2)))]"
    "updates (ctx_log c') = map int [0..<length (logs (ctx_log (sample_context 2)))]"
    by blast
  show ?thesis
    apply (rule conjI [OF c])
    apply (rule exI [of _ c'], rule exI [of _ nodes'], rule exI [of _ t'])
    using r t(1,2) m apply simp
    done
qed

lemma relog_length:
  "LOG_SIZE < length (logs lg) \<Longrightarrow> length (logs (relog D lg)) = LOG_SIZE"
  by (simp add: relog_def slice_last_length)

text \<open>
  C1 as stated fails. The context below has one agent, whose data bag \<^verbatim>\<open>{"k": "v"}\<close> has no
  underscore key and only values that JSON encodes, and its progress markers are the initial
  ones; its log holds 1001 entries, and the log of the context read back holds 1000.
\<close>

theorem context_roundtrip_drops_old_entries:
  "data (sample_heap_single ! 0) = PDict [(''k'', PStr ''v'')]
   \<and> list_all (\<lambda>kv. \<not> starts_underscore (fst kv)) [(''k'', PStr ''v'')]
   \<and> json_resolve json_default 0 (PDict [(''k'', PStr ''v'')]) = Inr (PDict [(''k'', PStr ''v'')])
   \<and> progress (ctx_log (sample_context_single 1001)) = initial_progress sample_deps
   \<and> progress_no (ctx_log (sample_context_single 1001)) = initial_progress_no sample_deps
   \<and> length (logs (ctx_log (sample_context_single 1001))) = 1001
   \<and> map_option (map_sum id (\<lambda>r. length (logs (ctx_log (snd r)))))
        (roundtrip sample_deps sample_heap_single (sample_context_single 1001))
       = Some (Inr 1000)"
proof -
  have 1: "chain_to sample_deps sample_heap_single PNone [] PNone"
    by (rule chain_end) simp
  have "chain_to sample_deps sample_heap_single (PAgent 0) [sample_heap_single ! 0] PNone"
    by (rule chain_step [OF _ _ 1])
       (simp_all add: sample_heap_single_def sample_deps_def dict_get_def)
  then have c: "chain_to sample_deps sample_heap_single (agent0 (sample_context_single 1001))
                  sample_heap_single PNone"
    by (simp add: sample_heap_single_def sample_context_single_def)
  have h: "sample_heap_single \<noteq> []"
    "\<forall>a \<in> set sample_heap_single. \<exists>e. data a = PDict e"
    "DATA_NAME_SUBORDINATE sample_deps \<noteq> DATA_NAME_SUPERIOR sample_deps"
    "\<forall>a \<in> set sample_heap_single.
        deserialize_history sample_deps (history_serialize sample_deps (history a))
          = Inr (history a)"
    by (simp_all add: sample_heap_single_def sample_deps_fields)
  have t: "created_at (sample_context_single 1001) = Some ''2024-01-01T10:00:00''"
    "last_message (sample_context_single 1001) = Some ''2024-01-02T11:30:00''"
    "ctx_id (sample_context_single 1001) \<noteq> PNone"
    "truthy (streaming_agent (sample_context_single 1001)) \<longrightarrow>
       (\<exists>a. heap_get sample_heap_single (streaming_agent (sample_context_single 1001)) = Inr a)"
    by (simp_all add: sample_context_single_def)
  have n: "length (logs (ctx_log (sample_context_single 1001))) = 1001"
    by (simp add: sample_context_single_def sample_log_def)
  from roundtrip_general [OF c h t(1) sample_deps_fields(4) t(2) sample_deps_fields(4)
      sample_deps_fields(5) t(3,4)]
  obtain sa hp' where
    "roundtrip sample_deps sample_heap_single (sample_context_single 1001) =
       Some (Inr (hp', (sample_context_single 1001)
          \<lparr>agent0 := PAgent (length sample_heap_single), streaming_agent := sa,
            ctx_log := relog sample_deps (ctx_log (sample_context_single 1001)),
            paused := False\<rparr>))"
    by blast
  then have "map_option (map_sum id (\<lambda>r. length (logs (ctx_log (snd r)))))
        (roundtrip sample_deps sample_heap_single (sample_context_single 1001))
       = Some (Inr 1000)"
    using n relog_length [of "ctx_log (sample_context_single 1001)" sample_deps]
    by (simp add: LOG_SIZE_def)
  with n show ?thesis
    by (simp add: sample_heap_single_def sample_context_single_def sample_log_def
        sample_deps_fields starts_underscore_def json_default_def)
qed

end
